theory Spec2Isabelle
  imports Main "HOL-Library.Multiset" "HOL-Library.Option_ord"
begin

section \<open>Errors\<close>

text \<open>
  The exceptions of \<^verbatim>\<open>objects.py\<close> as values. \<open>ValueError\<close> and
  \<open>NotImplementedError\<close> carry the message the code formats; \<open>OverflowError\<close> is what
  Python's date arithmetic raises out of range; \<open>RecursionError\<close> is what the interpreter
  raises when a recursion does not come back; \<open>ColumnNotFoundError\<close> is what the
  data frame library raises for an expression over a column the frame does not have;
  \<open>ProviderError\<close> stands for an error of the scheduling service (a COM error),
  passed on unchanged.
\<close>

datatype error =
    ValueError string
  | NotImplementedError string
  | OverflowError
  | RecursionError
  | ColumnNotFoundError
  | ProviderError

section \<open>Dates, times and time deltas\<close>

text \<open>
  A \<^verbatim>\<open>datetime.date\<close> is represented by its proleptic Gregorian ordinal
  (\<^verbatim>\<open>date.toordinal()\<close>, 1 for 0001-01-01 up to 3652059 for 9999-12-31), a
  \<^verbatim>\<open>datetime.time\<close> by its four clock fields, and a naive
  \<^verbatim>\<open>datetime.datetime\<close> by its clock fields and its date.
\<close>

type_synonym date = int

record time_of_day =
  hour :: nat
  minute :: nat
  second :: nat
  microsecond :: nat

record datetime = time_of_day +
  dt_date :: date

definition valid_datetime :: "datetime \<Rightarrow> bool" where
  "valid_datetime t \<longleftrightarrow>
     0 < dt_date t \<and> dt_date t \<le> 3652059 \<and>
     hour t < 24 \<and> minute t < 60 \<and> second t < 60 \<and> microsecond t < 1000000"

text \<open>
  \<^verbatim>\<open>timedelta(hours=h, minutes=m, seconds=s, microseconds=us)\<close> on integers: the
  constructor normalises the total to days, seconds in \<open>[0, 86400)\<close> and microseconds in
  \<open>[0, 1000000)\<close>, and raises when the days leave \<open>[-999999999, 999999999]\<close>.
\<close>

record timedelta =
  days :: int
  seconds :: int
  microseconds :: int

definition mk_timedelta :: "int \<Rightarrow> int \<Rightarrow> int \<Rightarrow> int \<Rightarrow> error + timedelta" where
  "mk_timedelta h m s us =
     (let total = ((h * 60 + m) * 60 + s) * 1000000 + us;
          d = total div 86400000000
      in if d < - 999999999 \<or> 999999999 < d then Inl OverflowError
         else Inr \<lparr>days = d,
                   seconds = (total mod 86400000000) div 1000000,
                   microseconds = total mod 1000000\<rparr>)"

text \<open>
  \<^verbatim>\<open>date + timedelta\<close>: the result is a \<^verbatim>\<open>date\<close>, moved by the delta's days;
  the delta's seconds and microseconds are ignored.
\<close>

definition date_add :: "date \<Rightarrow> timedelta \<Rightarrow> error + date" where
  "date_add d td =
     (let ord = d + days td
      in if 0 < ord \<and> ord \<le> 3652059 then Inr ord else Inl OverflowError)"

text \<open>
  A timestamp column holds microseconds since 1970-01-01 (ordinal 719163), or null. A
  \<^verbatim>\<open>datetime\<close> bound becomes that number; a \<^verbatim>\<open>date\<close> bound compared with a
  timestamp column is that date at 00:00:00.
\<close>

definition datetime_us :: "datetime \<Rightarrow> int" where
  "datetime_us t =
     (dt_date t - 719163) * 86400000000
     + ((int (hour t) * 60 + int (minute t)) * 60 + int (second t)) * 1000000
     + int (microsecond t)"

definition date_us :: "date \<Rightarrow> int" where
  "date_us d = (d - 719163) * 86400000000"

section \<open>Task records\<close>

text \<open>
  One row of the tasks table, with the keys of \<^verbatim>\<open>RegisteredTask.info\<close> as
  fields. The columns read from the registration info and the settings of a task definition
  are null where the definition leaves the property unset; the executable path is
  \<open>None\<close> when the \<^verbatim>\<open>Command\<close> element has no text.
\<close>

record task_info =
  name :: string
  enabled :: bool
  task_state :: int
  next_run_time :: "int option"
  last_run_time :: "int option"
  last_task_result :: int
  number_of_missed_runs :: int
  task_path :: string
  author :: "string option"
  registration_date :: "string option"
  task_description :: "string option"
  task_source :: "string option"
  AllowDemandStart :: "bool option"
  StartWhenAvailable :: "bool option"
  Enabled :: "bool option"
  Hidden :: "bool option"
  RestartInterval :: "string option"
  RestartCount :: "int option"
  ExecutionTimeLimit :: "string option"
  MultipleInstances :: "int option"
  execution_path :: "string option"

text \<open>The three columns \<^verbatim>\<open>preprocess\<close> derives.\<close>

record task_row = task_info +
  task_state_definition :: string
  last_task_result_definition :: string
  task_folder_name :: "string option"

section \<open>Column expressions\<close>

text \<open>
  \<^verbatim>\<open>is_between(lower, upper)\<close> is closed on both sides and null on a null value;
  \<^verbatim>\<open>filter\<close> keeps the rows whose predicate is true (not false, not null).
\<close>

definition is_between :: "int option \<Rightarrow> int \<Rightarrow> int \<Rightarrow> bool option" where
  "is_between v lower upper = map_option (\<lambda>x. lower \<le> x \<and> x \<le> upper) v"

definition filter_rows :: "('r \<Rightarrow> bool option) \<Rightarrow> 'r list \<Rightarrow> 'r list" where
  "filter_rows p df = filter (\<lambda>r. p r = Some True) df"

text \<open>
  \<^verbatim>\<open>sort(col, descending=...)\<close> with the defaults: nulls first, the rest by value.
  The order of rows with equal keys is not fixed by the library; the model keeps their order,
  and the theorems below speak of the sortedness and of the rows as a multiset only.
\<close>

definition sort_rows :: "('r \<Rightarrow> int option) \<Rightarrow> bool \<Rightarrow> 'r list \<Rightarrow> 'r list" where
  "sort_rows col descending df =
     sort_key (\<lambda>r. map_option (\<lambda>x. if descending then - x else x) (col r)) df"

section \<open>Queries on the tasks table\<close>

text \<open>
  \<^verbatim>\<open>get_tasks_completed_today\<close> reads the clock twice: \<^verbatim>\<open>datetime.today()\<close>
  for the date and \<^verbatim>\<open>datetime.now()\<close> for the upper bound.
\<close>

definition get_tasks_completed_today ::
  "datetime \<Rightarrow> datetime \<Rightarrow> ('a task_info_scheme) list \<Rightarrow> ('a task_info_scheme) list" where
  "get_tasks_completed_today today now df =
     (let todays_date = dt_date today;
          current_datetime = now
      in sort_rows last_run_time True
           (filter_rows
              (\<lambda>r. is_between (last_run_time r) (date_us todays_date) (datetime_us current_datetime))
              df))"

definition MAX_HOUR :: int where "MAX_HOUR = 23"
definition MAX_MIN :: int where "MAX_MIN = 59"
definition MAX_SEC :: int where "MAX_SEC = 59"
definition MAX_MSEC :: int where "MAX_MSEC = 999999"

definition get_tasks_due_today ::
  "datetime \<Rightarrow> ('a task_info_scheme) list \<Rightarrow> error + ('a task_info_scheme) list" where
  "get_tasks_due_today current_dt df =
     (let lower_date = current_dt;
          thour = int (hour lower_date);
          tmin = int (minute lower_date);
          tsec = int (second lower_date);
          tmsec = int (microsecond lower_date)
      in case mk_timedelta (MAX_HOUR - thour) (MAX_MIN - tmin) (MAX_SEC - tsec) (MAX_MSEC - tmsec) of
           Inl e \<Rightarrow> Inl e
         | Inr delta \<Rightarrow>
             (case date_add (dt_date current_dt) delta of
                Inl e \<Rightarrow> Inl e
              | Inr upper_date \<Rightarrow>
                  Inr (sort_rows next_run_time False
                         (filter_rows
                            (\<lambda>r. is_between (next_run_time r) (datetime_us lower_date) (date_us upper_date))
                            df))))"

section \<open>Preprocessing the tasks table\<close>

text \<open>
  \<^verbatim>\<open>str.split\<close> on a one-character separator: the pieces between the occurrences of
  the separator, empty pieces included; the empty string gives one empty piece.
\<close>

fun str_split :: "char \<Rightarrow> string \<Rightarrow> string list" where
  "str_split sep [] = [[]]"
| "str_split sep (c # cs) =
     (if c = sep then [] # str_split sep cs
      else (case str_split sep cs of
              [] \<Rightarrow> [[c]]
            | seg # segs \<Rightarrow> (c # seg) # segs))"

text \<open>
  \<^verbatim>\<open>list.slice(offset, length)\<close> and \<^verbatim>\<open>list.first()\<close>, which is null on an
  empty list.
\<close>

definition list_slice :: "nat \<Rightarrow> nat \<Rightarrow> 'a list \<Rightarrow> 'a list" where
  "list_slice offset len xs = take len (drop offset xs)"

definition list_first :: "'a list \<Rightarrow> 'a option" where
  "list_first xs = (case xs of [] \<Rightarrow> None | x # _ \<Rightarrow> Some x)"

text \<open>\<^verbatim>\<open>cast(str)\<close> of an integer column: the decimal text, with a minus sign.\<close>

definition digit_char :: "nat \<Rightarrow> char" where
  "digit_char d = ''0123456789'' ! d"

fun str_of_nat :: "nat \<Rightarrow> string" where
  "str_of_nat n =
     (if n < 10 then [digit_char n] else str_of_nat (n div 10) @ [digit_char (n mod 10)])"

declare str_of_nat.simps [simp del]

definition cast_str :: "int \<Rightarrow> string" where
  "cast_str i = (if i < 0 then CHR ''-'' # str_of_nat (nat (- i)) else str_of_nat (nat i))"

text \<open>
  \<^verbatim>\<open>replace(mapping)\<close>: a value that is a key of the mapping becomes the mapped
  value, any other value stays as it is.
\<close>

definition replace_values :: "(string \<rightharpoonup> string) \<Rightarrow> string \<Rightarrow> string" where
  "replace_values mapping s = (case mapping s of Some new \<Rightarrow> new | None \<Rightarrow> s)"

text \<open>
  \<^verbatim>\<open>TasksDataFrame.preprocess\<close>, row by row. The two lookup tables
  \<^verbatim>\<open>TaskValueDefinitions.TASK_STATE_DEFINITION\<close> and
  \<^verbatim>\<open>TaskValueDefinitions.TASK_RESULT_DEFINITION\<close> live in the constants module, which is
  not among the sources: they are parameters. The first \<^verbatim>\<open>with_columns\<close> puts the
  segment list of the path into \<^verbatim>\<open>task_folder_name\<close>; the second replaces it, under
  the same name, by the top folder.
\<close>

definition preprocess_row ::
  "(string \<rightharpoonup> string) \<Rightarrow> (string \<rightharpoonup> string) \<Rightarrow> task_info \<Rightarrow> task_row" where
  "preprocess_row TASK_STATE_DEFINITION TASK_RESULT_DEFINITION r =
     (let segments = str_split (CHR 0x5C) (task_path r)
      in task_info.extend r
           (task_row.fields
              (replace_values TASK_STATE_DEFINITION (cast_str (task_state r)))
              (replace_values TASK_RESULT_DEFINITION (cast_str (last_task_result r)))
              (if length segments \<le> 2 then Some [CHR 0x5C]
               else list_first (list_slice 1 2 segments))))"

definition preprocess ::
  "(string \<rightharpoonup> string) \<Rightarrow> (string \<rightharpoonup> string) \<Rightarrow> task_info list \<Rightarrow> task_row list" where
  "preprocess TASK_STATE_DEFINITION TASK_RESULT_DEFINITION df =
     map (preprocess_row TASK_STATE_DEFINITION TASK_RESULT_DEFINITION) df"

text \<open>Joining segments with a separator, to say what a split is.\<close>

fun str_join :: "char \<Rightarrow> string list \<Rightarrow> string" where
  "str_join sep [] = []"
| "str_join sep [seg] = seg"
| "str_join sep (seg # segs) = seg @ sep # str_join sep segs"

section \<open>Serialized task definitions\<close>

text \<open>
  The XML text of a registered task, as the element tree that
  \<^verbatim>\<open>ElementTree.fromstring\<close> builds from it: every element has its qualified tag, its
  text (\<open>None\<close> when the element has none) and its children in document order.
  \<^verbatim>\<open>findall\<close> with a tag gives the children with that tag, in document order.
\<close>

datatype element =
  Element (el_tag: string) (el_text: "string option") (el_children: "element list")

definition findall :: "string \<Rightarrow> element \<Rightarrow> element list" where
  "findall path e = filter (\<lambda>c. el_tag c = path) (el_children e)"

definition task_ns :: "string \<Rightarrow> string" where
  "task_ns local = ''{http://schemas.microsoft.com/windows/2004/02/mit/task}'' @ local"

text \<open>
  \<^verbatim>\<open>RegisteredTask.__extract_action_execpath\<close>: three nested loops that thread the
  variable \<^verbatim>\<open>exepath\<close>, which starts as the empty string.
\<close>

definition extract_action_execpath :: "element \<Rightarrow> string option" where
  "extract_action_execpath root =
     fold (\<lambda>act exepath.
             fold (\<lambda>exe exepath.
                     fold (\<lambda>command exepath. el_text command)
                          (findall (task_ns ''Command'') exe) exepath)
                  (findall (task_ns ''Exec'') act) exepath)
          (findall (task_ns ''Actions'') root) (Some [])"

text \<open>
  The \<^verbatim>\<open>Exec\<close> actions of a definition and their \<^verbatim>\<open>Command\<close> elements, in
  document order: what the extraction is measured against.
\<close>

definition exec_actions :: "element \<Rightarrow> element list" where
  "exec_actions root =
     concat (map (findall (task_ns ''Exec'')) (findall (task_ns ''Actions'') root))"

definition command_elements :: "element \<Rightarrow> element list" where
  "command_elements root = concat (map (findall (task_ns ''Command'')) (exec_actions root))"

section \<open>Task definitions\<close>

text \<open>
  Modelled from the spec: the constants module (\<^verbatim>\<open>TaskTriggerTypes\<close>,
  \<^verbatim>\<open>TaskActionTypes\<close>, \<^verbatim>\<open>TaskCreationTypes\<close>, \<^verbatim>\<open>TaskLogonTypes\<close>) is not
  among the sources. Its members are symbolic values here, under the names the code uses;
  \<open>TASK_CREATE\<close> and \<open>TASK_UPDATE\<close> are the two registration modes that the
  specification's create-or-update is told apart from, and \<open>TASK_LOGON_PASSWORD\<close> a logon
  with stored credentials.
\<close>

datatype trigger_type =
    TASK_TRIGGER_TIME
  | TASK_TRIGGER_DAILY
  | TASK_TRIGGER_WEEKLY
  | TASK_TRIGGER_MONTHLY
  | TASK_TRIGGER_MONTHLYDOW

datatype action_type = TASK_ACTION_EXEC

datatype creation_type = TASK_CREATE | TASK_UPDATE | TASK_CREATE_OR_UPDATE

datatype logon_type = TASK_LOGON_NONE | TASK_LOGON_PASSWORD

text \<open>
  A task definition as \<^verbatim>\<open>TaskTrigger\<close>, \<^verbatim>\<open>TaskAction\<close> and
  \<^verbatim>\<open>create_task\<close> see it. \<^verbatim>\<open>TaskTrigger\<close> keeps \<^verbatim>\<open>taskdef.Triggers\<close> and
  both calls \<^verbatim>\<open>Create\<close> on it and sets the cadence properties on it;
  \<^verbatim>\<open>TaskAction\<close> does the same with \<^verbatim>\<open>taskdef.Actions\<close>. So each of the two
  objects holds the kinds created so far and the properties written. The start boundary is
  the ISO text of a datetime, represented by the datetime.
\<close>

record trigger_collection =
  trigger_kinds :: "trigger_type list"
  StartBoundary :: "datetime option"
  DaysInterval :: "int option"
  WeeksInterval :: "int option"
  DaysOfWeek :: "int option"
  DaysOfMonth :: "int option"
  MonthsOfYear :: "int option"
  WeeksOfMonth :: "int option"

record action_collection =
  action_kinds :: "action_type list"
  Path :: "string option"
  Arguments :: "string option"
  WorkingDirectory :: "string option"

record registration_info =
  Author :: "string option"
  Date :: "string option"
  Description :: "string option"
  Source :: "string option"

record task_settings =
  ts_AllowDemandStart :: "bool option"
  ts_StartWhenAvailable :: "bool option"
  ts_Enabled :: "bool option"
  ts_Hidden :: "bool option"
  ts_RestartInterval :: "string option"
  ts_RestartCount :: "int option"
  ts_ExecutionTimeLimit :: "string option"
  ts_MultipleInstances :: "int option"

record task_definition =
  Triggers :: trigger_collection
  Actions :: action_collection
  RegistrationInfo :: registration_info
  Settings :: task_settings

section \<open>Registered tasks\<close>

text \<open>
  A registered task as the provider hands it out: the properties
  \<^verbatim>\<open>RegisteredTask\<close> reads, its definition, and its XML.
\<close>

record registered_task =
  rt_Name :: string
  rt_Enabled :: bool
  rt_State :: int
  rt_NextRunTime :: "int option"
  rt_LastRunTime :: "int option"
  rt_LastTaskResult :: int
  rt_NumberOfMissedRuns :: int
  rt_Path :: string
  Definition :: task_definition
  Xml :: element

definition info :: "registered_task \<Rightarrow> task_info" where
  "info rtask =
     (let reg_info = RegistrationInfo (Definition rtask);
          task_settings = Settings (Definition rtask)
      in \<lparr>name = rt_Name rtask,
          enabled = rt_Enabled rtask,
          task_state = rt_State rtask,
          next_run_time = rt_NextRunTime rtask,
          last_run_time = rt_LastRunTime rtask,
          last_task_result = rt_LastTaskResult rtask,
          number_of_missed_runs = rt_NumberOfMissedRuns rtask,
          task_path = rt_Path rtask,
          author = Author reg_info,
          registration_date = Date reg_info,
          task_description = Description reg_info,
          task_source = Source reg_info,
          AllowDemandStart = ts_AllowDemandStart task_settings,
          StartWhenAvailable = ts_StartWhenAvailable task_settings,
          Enabled = ts_Enabled task_settings,
          Hidden = ts_Hidden task_settings,
          RestartInterval = ts_RestartInterval task_settings,
          RestartCount = ts_RestartCount task_settings,
          ExecutionTimeLimit = ts_ExecutionTimeLimit task_settings,
          MultipleInstances = ts_MultipleInstances task_settings,
          execution_path = extract_action_execpath (Xml rtask)\<rparr>)"

section \<open>The provider's folder tree\<close>

text \<open>
  Modelled from the spec: the scheduling service itself is outside the repository. It is an
  in-memory tree here: a folder has a name, the tasks registered in it under their names
  (what \<^verbatim>\<open>GetTasks(0)\<close> lists) and its subfolders (what \<^verbatim>\<open>GetFolders(0)\<close>
  lists). The type of a registered task is left open. A folder's \<^verbatim>\<open>Path\<close> is
  represented by the list of folder names that leads to it from the root, the root's being
  empty; a folder object is the path it was fetched by.
\<close>

datatype 't folder =
  Folder (Name: string) (GetTasks: "(string \<times> 't) list") (GetFolders: "'t folder list")

type_synonym path = "string list"

fun GetFolder :: "'t folder \<Rightarrow> path \<Rightarrow> 't folder option" where
  "GetFolder f [] = Some f"
| "GetFolder f (n # ns) =
     (case find (\<lambda>sf. Name sf = n) (GetFolders f) of
        None \<Rightarrow> None
      | Some sf \<Rightarrow> GetFolder sf ns)"

definition GetTask :: "'t folder \<Rightarrow> path \<Rightarrow> string \<Rightarrow> 't option" where
  "GetTask root p n =
     (case GetFolder root p of
        None \<Rightarrow> None
      | Some f \<Rightarrow> map_of (GetTasks f) n)"

fun update_first :: "('a \<Rightarrow> bool) \<Rightarrow> ('a \<Rightarrow> 'a) \<Rightarrow> 'a list \<Rightarrow> 'a list" where
  "update_first P g [] = []"
| "update_first P g (x # xs) = (if P x then g x # xs else x # update_first P g xs)"

fun update_folder :: "('t folder \<Rightarrow> 't folder) \<Rightarrow> path \<Rightarrow> 't folder \<Rightarrow> 't folder" where
  "update_folder g [] f = g f"
| "update_folder g (n # ns) f =
     Folder (Name f) (GetTasks f)
       (update_first (\<lambda>sf. Name sf = n) (\<lambda>sf. update_folder g ns sf) (GetFolders f))"

text \<open>
  The provider's own failures: creating a folder that exists, deleting one that does not
  exist or is not empty, and any call on a folder that is gone.
\<close>

definition CreateFolder :: "'t folder \<Rightarrow> path \<Rightarrow> string \<Rightarrow> error + 't folder" where
  "CreateFolder root p n =
     (case GetFolder root p of
        None \<Rightarrow> Inl ProviderError
      | Some f \<Rightarrow>
          if n \<in> set (map Name (GetFolders f)) then Inl ProviderError
          else Inr (update_folder
                      (\<lambda>f. Folder (Name f) (GetTasks f) (GetFolders f @ [Folder n [] []])) p root))"

definition DeleteFolder :: "'t folder \<Rightarrow> path \<Rightarrow> string \<Rightarrow> error + 't folder" where
  "DeleteFolder root p n =
     (case GetFolder root p of
        None \<Rightarrow> Inl ProviderError
      | Some f \<Rightarrow>
          (case find (\<lambda>sf. Name sf = n) (GetFolders f) of
             None \<Rightarrow> Inl ProviderError
           | Some sf \<Rightarrow>
               if GetTasks sf \<noteq> [] \<or> GetFolders sf \<noteq> [] then Inl ProviderError
               else Inr (update_folder
                           (\<lambda>f. Folder (Name f) (GetTasks f)
                                   (filter (\<lambda>sf. Name sf \<noteq> n) (GetFolders f))) p root)))"

text \<open>
  What the provider stores on registration: the definition and the credentials it was
  registered with.
\<close>

record registration =
  reg_definition :: task_definition
  reg_user :: string
  reg_password :: string
  reg_logon :: logon_type

definition RegisterTaskDefinition ::
  "registration folder \<Rightarrow> path \<Rightarrow> string \<Rightarrow> task_definition \<Rightarrow> creation_type \<Rightarrow>
   string \<Rightarrow> string \<Rightarrow> logon_type \<Rightarrow> error + registration folder" where
  "RegisterTaskDefinition root p n taskdef flags user password logon =
     (case GetFolder root p of
        None \<Rightarrow> Inl ProviderError
      | Some f \<Rightarrow>
          (let registered = n \<in> set (map fst (GetTasks f));
               entry = \<lparr>reg_definition = taskdef, reg_user = user,
                        reg_password = password, reg_logon = logon\<rparr>;
               overwrite = (\<lambda>f. Folder (Name f)
                                   (map (\<lambda>(k, old). if k = n then (k, entry) else (k, old))
                                      (GetTasks f))
                                   (GetFolders f));
               add = (\<lambda>f. Folder (Name f) (GetTasks f @ [(n, entry)]) (GetFolders f))
           in case flags of
                TASK_CREATE \<Rightarrow>
                  if registered then Inl ProviderError else Inr (update_folder add p root)
              | TASK_UPDATE \<Rightarrow>
                  if registered then Inr (update_folder overwrite p root) else Inl ProviderError
              | TASK_CREATE_OR_UPDATE \<Rightarrow>
                  Inr (update_folder (if registered then overwrite else add) p root)))"

section \<open>Folders\<close>

text \<open>
  \<^verbatim>\<open>TaskScheduler.__find_folder\<close>: the first folder of the given name in a
  depth-first walk that looks at a subfolder's name, then at everything below it, then at
  its next sibling. A subfolder's path is never the empty string, so the test
  \<^verbatim>\<open>if fpath\<close> is the test for \<^verbatim>\<open>None\<close>.
\<close>

fun find_folder :: "'t folder \<Rightarrow> path \<Rightarrow> string \<Rightarrow> path option"
  and find_in_folders :: "'t folder list \<Rightarrow> path \<Rightarrow> string \<Rightarrow> path option" where
  "find_folder (Folder n ts folders) folder_path folder_name =
     find_in_folders folders folder_path folder_name"
| "find_in_folders [] parent_path folder_name = None"
| "find_in_folders (subfolder # rest) parent_path folder_name =
     (if Name subfolder = folder_name then Some (parent_path @ [Name subfolder])
      else (case find_folder subfolder (parent_path @ [Name subfolder]) folder_name of
              Some fpath \<Rightarrow> Some fpath
            | None \<Rightarrow> find_in_folders rest parent_path folder_name))"

text \<open>
  \<^verbatim>\<open>TaskFolder\<close>: the folder object together with the names of its subfolders and
  tasks, read once when the wrapper is made.
\<close>

record task_folder =
  folder :: path
  subfolders :: "string list"
  tasks :: "string list"

definition TaskFolder :: "'t folder \<Rightarrow> path \<Rightarrow> task_folder" where
  "TaskFolder folder_obj p =
     \<lparr>folder = p,
      subfolders = map Name (GetFolders folder_obj),
      tasks = map fst (GetTasks folder_obj)\<rparr>"

definition get_folder :: "'t folder \<Rightarrow> string option \<Rightarrow> error + task_folder" where
  "get_folder root_folder folder_name =
     (case folder_name of
        None \<Rightarrow> Inr (TaskFolder root_folder [])
      | Some n \<Rightarrow>
          (case find_folder root_folder [] n of
             Some folder_path \<Rightarrow>
               (case GetFolder root_folder folder_path of
                  None \<Rightarrow> Inl ProviderError
                | Some f \<Rightarrow> Inr (TaskFolder f folder_path))
           | None \<Rightarrow> Inl (ValueError (''Could not find '' @ n))))"

text \<open>
  The methods of \<^verbatim>\<open>TaskFolder\<close>. Those that change the provider return its new
  state next to their result; on an error the state they return is the one the provider is
  left in.
\<close>

definition create_folder ::
  "'t folder \<Rightarrow> task_folder \<Rightarrow> string \<Rightarrow> (error + task_folder) \<times> 't folder" where
  "create_folder root self folder_name =
     (if folder_name \<in> set (subfolders self) then
        (Inl (ValueError (folder_name @ '' already exists!'')), root)
      else
        (case CreateFolder root (folder self) folder_name of
           Inl e \<Rightarrow> (Inl e, root)
         | Inr root' \<Rightarrow>
             (Inr (TaskFolder (Folder folder_name [] [] :: 't folder)
                     (folder self @ [folder_name])), root')))"

definition delete_folder ::
  "'t folder \<Rightarrow> task_folder \<Rightarrow> string \<Rightarrow> (error + unit) \<times> 't folder" where
  "delete_folder root self folder_name =
     (if folder_name \<in> set (subfolders self) then
        (case DeleteFolder root (folder self) folder_name of
           Inl e \<Rightarrow> (Inl e, root)
         | Inr root' \<Rightarrow> (Inr (), root'))
      else (Inl (ValueError (folder_name @ '' does not exist!'')), root))"

definition get_task :: "'t folder \<Rightarrow> task_folder \<Rightarrow> string \<Rightarrow> error + 't" where
  "get_task root self task_name =
     (if task_name \<in> set (tasks self) then
        (case GetTask root (folder self) task_name of
           None \<Rightarrow> Inl ProviderError
         | Some rtask \<Rightarrow> Inr rtask)
      else Inl (ValueError (task_name @ '' does not exist in this folder!'')))"

definition register_new_task ::
  "registration folder \<Rightarrow> task_folder \<Rightarrow> string \<Rightarrow> task_definition \<Rightarrow>
   (error + unit) \<times> registration folder" where
  "register_new_task root self task_name new_taskdef =
     (case RegisterTaskDefinition root (folder self) task_name new_taskdef
             TASK_CREATE_OR_UPDATE [] [] TASK_LOGON_NONE of
        Inl e \<Rightarrow> (Inl e, root)
      | Inr root' \<Rightarrow> (Inr (), root'))"

section \<open>Enumerating all tasks\<close>

text \<open>
  \<^verbatim>\<open>TaskScheduler.__list_tasks_info_in_folder\<close>. The first loop appends the record of
  every task of the folder; the second takes each subfolder name, fetches the folder of that
  name with \<^verbatim>\<open>get_folder\<close>, which searches from the root, and recurses. The recursion
  need not come back, so it carries the depth that the interpreter still allows and raises
  \<open>RecursionError\<close> when none is left. The path built in \<^verbatim>\<open>folder_name\<close> is passed
  along and never read.
\<close>

fun append_tasks_info ::
  "registered_task folder \<Rightarrow> task_folder \<Rightarrow> string list \<Rightarrow> task_info list \<Rightarrow>
   error + task_info list" where
  "append_tasks_info root self [] tasks_info_list = Inr tasks_info_list"
| "append_tasks_info root self (t # ts) tasks_info_list =
     (case get_task root self t of
        Inl e \<Rightarrow> Inl e
      | Inr rtask \<Rightarrow> append_tasks_info root self ts (tasks_info_list @ [info rtask]))"

fun list_tasks_info_in_folder ::
  "nat \<Rightarrow> registered_task folder \<Rightarrow> task_folder \<Rightarrow> string \<Rightarrow> task_info list \<Rightarrow>
   error + task_info list"
  and walk_subfolders ::
  "nat \<Rightarrow> registered_task folder \<Rightarrow> string \<Rightarrow> string list \<Rightarrow> task_info list \<Rightarrow>
   error + task_info list" where
  "list_tasks_info_in_folder 0 root self folder_name tasks_info_list = Inl RecursionError"
| "list_tasks_info_in_folder (Suc depth) root self folder_name tasks_info_list =
     (case append_tasks_info root self (tasks self) tasks_info_list of
        Inl e \<Rightarrow> Inl e
      | Inr tasks_info_list' \<Rightarrow>
          walk_subfolders depth root folder_name (subfolders self) tasks_info_list')"
| "walk_subfolders depth root folder_name [] tasks_info_list = Inr tasks_info_list"
| "walk_subfolders depth root folder_name (sf # sfs) tasks_info_list =
     (case get_folder root (Some sf) of
        Inl e \<Rightarrow> Inl e
      | Inr subfolder \<Rightarrow>
          (case list_tasks_info_in_folder depth root subfolder
                  (folder_name @ [CHR 0x5C] @ sf) tasks_info_list of
             Inl e \<Rightarrow> Inl e
           | Inr tasks_info_list' \<Rightarrow>
               walk_subfolders depth root folder_name sfs tasks_info_list'))"

text \<open>
  \<^verbatim>\<open>get_all_tasks\<close>. A data frame made from an empty list has no columns, and
  preprocessing it fails on the first column it names.
\<close>

definition get_all_tasks ::
  "nat \<Rightarrow> registered_task folder \<Rightarrow> (string \<rightharpoonup> string) \<Rightarrow> (string \<rightharpoonup> string) \<Rightarrow>
   error + task_row list" where
  "get_all_tasks depth root TASK_STATE_DEFINITION TASK_RESULT_DEFINITION =
     (case get_folder root None of
        Inl e \<Rightarrow> Inl e
      | Inr root_folder \<Rightarrow>
          (case list_tasks_info_in_folder depth root root_folder [CHR 0x5C] [] of
             Inl e \<Rightarrow> Inl e
           | Inr tasks_info_list \<Rightarrow>
               if tasks_info_list = [] then Inl ColumnNotFoundError
               else Inr (preprocess TASK_STATE_DEFINITION TASK_RESULT_DEFINITION
                           tasks_info_list)))"

text \<open>
  The enumeration the specification describes: the tasks of a folder, then each subfolder in
  turn, depth first.
\<close>

fun tasks_depth_first :: "'t folder \<Rightarrow> 't list" where
  "tasks_depth_first (Folder n ts folders) =
     map snd ts @ concat (map tasks_depth_first folders)"

text \<open>
  What the provider guarantees and what it does not: task names are unique within a folder
  (\<open>task_names_unique\<close>); the names of all folders below a folder, in the order of the
  search, are \<open>folder_names\<close>, and they need not be distinct across the tree.
  \<open>height\<close> is the number of nested calls the walk of a folder needs.
\<close>

fun folder_names :: "'t folder \<Rightarrow> string list" where
  "folder_names (Folder n ts folders) =
     concat (map (\<lambda>sf. Name sf # folder_names sf) folders)"

fun task_names_unique :: "'t folder \<Rightarrow> bool" where
  "task_names_unique (Folder n ts folders) \<longleftrightarrow>
     distinct (map fst ts) \<and> list_all task_names_unique folders"

fun height :: "'t folder \<Rightarrow> nat" where
  "height (Folder n ts folders) = Suc (foldr (\<lambda>sf m. max (height sf) m) folders 0)"

section \<open>Building triggers and actions\<close>

definition datetime_combine :: "date \<Rightarrow> time_of_day \<Rightarrow> datetime" where
  "datetime_combine d t =
     \<lparr>hour = hour t, minute = minute t, second = second t, microsecond = microsecond t,
      dt_date = d\<rparr>"

text \<open>The methods of \<^verbatim>\<open>TaskTrigger\<close>, on the definition the wrapper holds.\<close>

definition set_start_boundary ::
  "date \<Rightarrow> time_of_day \<Rightarrow> task_definition \<Rightarrow> task_definition" where
  "set_start_boundary start_date start_time taskdef =
     taskdef\<lparr>Triggers :=
       (Triggers taskdef)\<lparr>StartBoundary := Some (datetime_combine start_date start_time)\<rparr>\<rparr>"

definition set_cadence :: "trigger_type \<Rightarrow> task_definition \<Rightarrow> task_definition" where
  "set_cadence trigger_type taskdef =
     taskdef\<lparr>Triggers :=
       (Triggers taskdef)\<lparr>trigger_kinds := trigger_kinds (Triggers taskdef) @ [trigger_type]\<rparr>\<rparr>"

definition create_daily_trigger ::
  "date \<Rightarrow> time_of_day \<Rightarrow> int option \<Rightarrow> task_definition \<Rightarrow> task_definition" where
  "create_daily_trigger start_date start_time days_interval taskdef =
     (let td = set_cadence TASK_TRIGGER_DAILY taskdef;
          td = set_start_boundary start_date start_time td
      in td\<lparr>Triggers := (Triggers td)\<lparr>DaysInterval := days_interval\<rparr>\<rparr>)"

definition create_weekly_trigger ::
  "date \<Rightarrow> time_of_day \<Rightarrow> int option \<Rightarrow> int option \<Rightarrow> task_definition \<Rightarrow> task_definition" where
  "create_weekly_trigger start_date start_time weeks_interval days_of_week taskdef =
     (let td = set_cadence TASK_TRIGGER_WEEKLY taskdef;
          td = set_start_boundary start_date start_time td
      in td\<lparr>Triggers :=
            (Triggers td)\<lparr>WeeksInterval := weeks_interval, DaysOfWeek := days_of_week\<rparr>\<rparr>)"

definition create_monthly_trigger ::
  "string \<Rightarrow> date \<Rightarrow> time_of_day \<Rightarrow> int option \<Rightarrow> int option \<Rightarrow> int option \<Rightarrow> int option \<Rightarrow>
   task_definition \<Rightarrow> task_definition" where
  "create_monthly_trigger trigger_type start_date start_time days_of_month days_of_week
     months_of_year weeks_of_month taskdef =
     (let td = set_start_boundary start_date start_time taskdef
      in if trigger_type = ''month'' then
           (let td = set_cadence TASK_TRIGGER_MONTHLY td
            in td\<lparr>Triggers :=
                  (Triggers td)\<lparr>DaysOfMonth := days_of_month, MonthsOfYear := months_of_year\<rparr>\<rparr>)
         else if trigger_type = ''dow'' then
           (let td = set_cadence TASK_TRIGGER_MONTHLYDOW td
            in td\<lparr>Triggers :=
                  (Triggers td)\<lparr>DaysOfWeek := days_of_week, MonthsOfYear := months_of_year,
                                WeeksOfMonth := weeks_of_month\<rparr>\<rparr>)
         else td)"

definition create_one_time_trigger ::
  "date \<Rightarrow> time_of_day \<Rightarrow> task_definition \<Rightarrow> task_definition" where
  "create_one_time_trigger start_date start_time taskdef =
     set_start_boundary start_date start_time (set_cadence TASK_TRIGGER_TIME taskdef)"

text \<open>\<^verbatim>\<open>TaskAction.create_execution_action\<close>.\<close>

definition create_execution_action ::
  "string \<Rightarrow> string option \<Rightarrow> string option \<Rightarrow> task_definition \<Rightarrow> task_definition" where
  "create_execution_action filepath argument working_dir taskdef =
     taskdef\<lparr>Actions :=
       (Actions taskdef)\<lparr>action_kinds := action_kinds (Actions taskdef) @ [TASK_ACTION_EXEC],
                          Path := Some filepath,
                          Arguments := argument,
                          WorkingDirectory := working_dir\<rparr>\<rparr>"

section \<open>Creating a task\<close>

text \<open>
  The state \<^verbatim>\<open>create_task\<close> works on: the provider's folder tree and the task
  definitions that \<^verbatim>\<open>NewTask\<close> has handed out. A definition is an object that the
  builders change in place; it is referred to by its position in the list.
\<close>

record scheduler =
  root_folder :: "registration folder"
  definitions :: "task_definition list"

definition empty_definition :: task_definition where
  "empty_definition =
     \<lparr>Triggers = \<lparr>trigger_kinds = [], StartBoundary = None, DaysInterval = None,
                   WeeksInterval = None, DaysOfWeek = None, DaysOfMonth = None,
                   MonthsOfYear = None, WeeksOfMonth = None\<rparr>,
      Actions = \<lparr>action_kinds = [], Path = None, Arguments = None, WorkingDirectory = None\<rparr>,
      RegistrationInfo = \<lparr>Author = None, Date = None, Description = None, Source = None\<rparr>,
      Settings = \<lparr>ts_AllowDemandStart = None, ts_StartWhenAvailable = None, ts_Enabled = None,
                  ts_Hidden = None, ts_RestartInterval = None, ts_RestartCount = None,
                  ts_ExecutionTimeLimit = None, ts_MultipleInstances = None\<rparr>\<rparr>"

definition NewTask :: "scheduler \<Rightarrow> nat \<times> scheduler" where
  "NewTask st =
     (length (definitions st), st\<lparr>definitions := definitions st @ [empty_definition]\<rparr>)"

definition modify_definition ::
  "nat \<Rightarrow> (task_definition \<Rightarrow> task_definition) \<Rightarrow> scheduler \<Rightarrow> scheduler" where
  "modify_definition ref g st =
     st\<lparr>definitions := (definitions st)[ref := g (definitions st ! ref)]\<rparr>"

text \<open>The parameters of \<^verbatim>\<open>create_task\<close>, each under its name with a \<open>p_\<close> in front.\<close>

record create_task_args =
  p_folder_name :: string
  p_trigger_type :: string
  p_start_date :: date
  p_start_time :: time_of_day
  p_days_interval :: "int option"
  p_weeks_interval :: "int option"
  p_days_of_week :: "int option"
  p_days_of_month :: "int option"
  p_months_of_year :: "int option"
  p_weeks_of_month :: "int option"
  p_action_type :: string
  p_action_arg :: "string option"
  p_action_file :: string
  p_action_working_dir :: "string option"
  p_task_name :: string
  p_task_description :: string
  p_allow_demand_start :: "bool option"
  p_start_when_available :: "bool option"
  p_enabled :: "bool option"
  p_hidden :: "bool option"
  p_restart_interval :: "string option"
  p_restart_count :: "int option"
  p_execution_time_limit :: "string option"
  p_multiple_instances :: "int option"

text \<open>The first \<^verbatim>\<open>match\<close> of \<^verbatim>\<open>create_task\<close>: a type that is no case changes nothing.\<close>

definition match_trigger_type :: "create_task_args \<Rightarrow> task_definition \<Rightarrow> task_definition" where
  "match_trigger_type a new_taskdef =
     (if p_trigger_type a = ''daily'' then
        create_daily_trigger (p_start_date a) (p_start_time a) (p_days_interval a) new_taskdef
      else if p_trigger_type a = ''weekly'' then
        create_weekly_trigger (p_start_date a) (p_start_time a) (p_weeks_interval a)
          (p_days_of_week a) new_taskdef
      else if p_trigger_type a = ''monthly'' then
        create_monthly_trigger ''month'' (p_start_date a) (p_start_time a) (p_days_of_month a)
          (p_days_of_week a) (p_months_of_year a) (p_weeks_of_month a) new_taskdef
      else if p_trigger_type a = ''monthlydow'' then
        create_monthly_trigger ''dow'' (p_start_date a) (p_start_time a) (p_days_of_month a)
          (p_days_of_week a) (p_months_of_year a) (p_weeks_of_month a) new_taskdef
      else if p_trigger_type a = ''one-time'' then
        create_one_time_trigger (p_start_date a) (p_start_time a) new_taskdef
      else new_taskdef)"

text \<open>The second \<^verbatim>\<open>match\<close>: three of the four action types raise.\<close>

definition match_action_type :: "create_task_args \<Rightarrow> task_definition \<Rightarrow> error + task_definition" where
  "match_action_type a new_taskdef =
     (if p_action_type a = ''exec'' then
        Inr (create_execution_action (p_action_file a) (p_action_arg a)
               (p_action_working_dir a) new_taskdef)
      else if p_action_type a = ''com-handler'' then
        Inl (NotImplementedError ''Create com handler action has not been implemented'')
      else if p_action_type a = ''email'' then
        Inl (NotImplementedError ''Create send email action has not been implemented'')
      else if p_action_type a = ''show-message'' then
        Inl (NotImplementedError ''Create show message action has not been implemented'')
      else Inr new_taskdef)"

definition write_settings :: "create_task_args \<Rightarrow> task_definition \<Rightarrow> task_definition" where
  "write_settings a new_taskdef =
     new_taskdef
       \<lparr>RegistrationInfo :=
          (RegistrationInfo new_taskdef)\<lparr>Description := Some (p_task_description a)\<rparr>,
        Settings :=
          (Settings new_taskdef)
            \<lparr>ts_AllowDemandStart := p_allow_demand_start a,
             ts_StartWhenAvailable := p_start_when_available a,
             ts_Enabled := p_enabled a,
             ts_Hidden := p_hidden a,
             ts_RestartInterval := p_restart_interval a,
             ts_RestartCount := p_restart_count a,
             ts_ExecutionTimeLimit := p_execution_time_limit a,
             ts_MultipleInstances := p_multiple_instances a\<rparr>\<rparr>"

text \<open>
  \<^verbatim>\<open>TaskScheduler.create_task\<close>: the folder lookup, a new definition, the trigger,
  the action, the description and the settings, the registration. It returns the new
  definition, wrapped; here, its reference.
\<close>

definition create_task :: "scheduler \<Rightarrow> create_task_args \<Rightarrow> (error + nat) \<times> scheduler" where
  "create_task st a =
     (case get_folder (root_folder st) (Some (p_folder_name a)) of
        Inl e \<Rightarrow> (Inl e, st)
      | Inr target_folder \<Rightarrow>
          (let (new_taskdef, st) = NewTask st;
               st = modify_definition new_taskdef (match_trigger_type a) st
           in case match_action_type a (definitions st ! new_taskdef) of
                Inl e \<Rightarrow> (Inl e, st)
              | Inr with_action \<Rightarrow>
                  (let st = modify_definition new_taskdef (\<lambda>_. with_action) st;
                       st = modify_definition new_taskdef (write_settings a) st
                   in case register_new_task (root_folder st) target_folder (p_task_name a)
                             (definitions st ! new_taskdef) of
                        (Inl e, root') \<Rightarrow> (Inl e, st\<lparr>root_folder := root'\<rparr>)
                      | (Inr u, root') \<Rightarrow> (Inr new_taskdef, st\<lparr>root_folder := root'\<rparr>))))"

section \<open>Sample inputs\<close>

text \<open>
  Concrete tables and instants on which the theorems below are exercised:
  2024-01-01 is ordinal 738886, and 2024-01-01T10:00:00 is microsecond 1704103200000000.
\<close>

definition sample_task :: "string \<Rightarrow> int option \<Rightarrow> int option \<Rightarrow> task_info" where
  "sample_task n nxt lst =
     \<lparr>name = n, enabled = True, task_state = 3, next_run_time = nxt, last_run_time = lst,
      last_task_result = 0, number_of_missed_runs = 0, task_path = CHR 0x5C # n,
      author = None, registration_date = None, task_description = None, task_source = None,
      AllowDemandStart = Some True, StartWhenAvailable = Some False, Enabled = Some True,
      Hidden = Some False, RestartInterval = None, RestartCount = Some 0,
      ExecutionTimeLimit = None, MultipleInstances = Some 0,
      execution_path = Some []\<rparr>"

definition at_clock :: "date \<Rightarrow> nat \<Rightarrow> nat \<Rightarrow> nat \<Rightarrow> nat \<Rightarrow> datetime" where
  "at_clock d h m s us = \<lparr>hour = h, minute = m, second = s, microsecond = us, dt_date = d\<rparr>"

definition ten_oclock :: datetime where
  "ten_oclock = at_clock 738886 10 0 0 0"

definition two_exec_definition :: element where
  "two_exec_definition =
     Element (task_ns ''Task'') None
       [Element (task_ns ''RegistrationInfo'') None [],
        Element (task_ns ''Actions'') None
          [Element (task_ns ''Exec'') None
             [Element (task_ns ''Command'') (Some ''first.exe'') []],
           Element (task_ns ''Exec'') None
             [Element (task_ns ''Command'') (Some ''second.exe'') [],
              Element (task_ns ''Arguments'') (Some ''/q'') []]]]"

definition no_exec_definition :: element where
  "no_exec_definition =
     Element (task_ns ''Task'') None
       [Element (task_ns ''Actions'') None
          [Element (task_ns ''ComHandler'') None
             [Element (task_ns ''ClassId'') (Some ''{0}'') []]]]"

definition sample_registration :: registration where
  "sample_registration =
     \<lparr>reg_definition = empty_definition, reg_user = ''admin'', reg_password = ''secret'',
      reg_logon = TASK_LOGON_PASSWORD\<rparr>"

definition sample_root :: "registration folder" where
  "sample_root =
     Folder [] [(''backup'', sample_registration)]
       [Folder ''Reports'' [(''nightly'', sample_registration)] [],
        Folder ''Empty'' [] []]"

definition sample_scheduler :: scheduler where
  "sample_scheduler = \<lparr>root_folder = sample_root, definitions = []\<rparr>"

definition sample_args :: create_task_args where
  "sample_args =
     \<lparr>p_folder_name = ''Reports'',
      p_trigger_type = ''monthlydow'',
      p_start_date = 738886,
      p_start_time = \<lparr>hour = 8, minute = 30, second = 0, microsecond = 0\<rparr>,
      p_days_interval = None,
      p_weeks_interval = None,
      p_days_of_week = Some 16,
      p_days_of_month = None,
      p_months_of_year = Some 4095,
      p_weeks_of_month = Some 1,
      p_action_type = ''email'',
      p_action_arg = None,
      p_action_file = ''report.bat'',
      p_action_working_dir = None,
      p_task_name = ''monthly'',
      p_task_description = ''Monthly report'',
      p_allow_demand_start = Some True,
      p_start_when_available = Some True,
      p_enabled = Some True,
      p_hidden = Some False,
      p_restart_interval = None,
      p_restart_count = None,
      p_execution_time_limit = None,
      p_multiple_instances = Some 0\<rparr>"

definition task_path_of :: "string list \<Rightarrow> string" where
  "task_path_of segments = concat (map (\<lambda>seg. CHR 0x5C # seg) segments)"

definition sample_rtask :: "string list \<Rightarrow> string \<Rightarrow> registered_task" where
  "sample_rtask folder_path n =
     \<lparr>rt_Name = n, rt_Enabled = True, rt_State = 3, rt_NextRunTime = None,
      rt_LastRunTime = None, rt_LastTaskResult = 0, rt_NumberOfMissedRuns = 0,
      rt_Path = task_path_of (folder_path @ [n]),
      Definition = empty_definition, Xml = two_exec_definition\<rparr>"

text \<open>
  A tree with two folders named \<open>X\<close>: \<^verbatim>\<open>\A\X\<close>, which holds the task \<open>inner\<close>, and
  \<^verbatim>\<open>\X\<close>, which holds the task \<open>outer\<close>.
\<close>

definition shadowed_tree :: "registered_task folder" where
  "shadowed_tree =
     Folder [] []
       [Folder ''A'' [] [Folder ''X'' [(''inner'', sample_rtask [''A'', ''X''] ''inner'')] []],
        Folder ''X'' [(''outer'', sample_rtask [''X''] ''outer'')] []]"

text \<open>A tree in which the folder \<^verbatim>\<open>\A\<close> has a subfolder of its own name.\<close>

definition nested_tree :: "registered_task folder" where
  "nested_tree =
     Folder [] []
       [Folder ''A'' [(''outer'', sample_rtask [''A''] ''outer'')]
          [Folder ''A'' [(''inner'', sample_rtask [''A'', ''A''] ''inner'')] []]]"

text \<open>A tree in which no two folders have the same name.\<close>

definition plain_tree :: "registered_task folder" where
  "plain_tree =
     Folder [] [(''top'', sample_rtask [] ''top'')]
       [Folder ''A'' [(''a'', sample_rtask [''A''] ''a'')]
          [Folder ''B'' [(''b'', sample_rtask [''A'', ''B''] ''b'')] []],
        Folder ''C'' [(''c'', sample_rtask [''C''] ''c'')] []]"

section \<open>Properties of the table queries\<close>

lemma mset_sort_rows: "mset (sort_rows col d df) = mset df"
  by (simp add: sort_rows_def)

lemma set_sort_rows: "set (sort_rows col d df) = set df"
  by (simp add: sort_rows_def)

lemma mset_filter_rows:
  "mset (filter_rows p df) = filter_mset (\<lambda>r. p r = Some True) (mset df)"
  by (simp add: filter_rows_def)

lemma is_between_true:
  "is_between v lo hi = Some True \<longleftrightarrow> (\<exists>x. v = Some x \<and> lo \<le> x \<and> x \<le> hi)"
  by (cases v) (auto simp: is_between_def)

lemma sorted_sort_rows_keys:
  "sorted (map (\<lambda>r. map_option (\<lambda>x. if d then - x else x) (col r)) (sort_rows col d df))"
  by (simp add: sort_rows_def)

lemma sort_rows_descending:
  assumes "\<And>r. r \<in> set df \<Longrightarrow> col r \<noteq> None"
  shows "sorted_wrt (\<lambda>a b. col b \<le> col a) (sort_rows col True df)"
proof -
  let ?k = "\<lambda>r. map_option (\<lambda>x::int. - x) (col r)"
  have "sorted (map ?k (sort_rows col True df))"
    using sorted_sort_rows_keys [of True col df] by simp
  then have keys: "sorted_wrt (\<lambda>a b. ?k a \<le> ?k b) (sort_rows col True df)"
    by (simp add: sorted_map)
  show ?thesis
  proof (rule sorted_wrt_mono_rel [OF _ keys])
    fix a b
    assume "a \<in> set (sort_rows col True df)" and "b \<in> set (sort_rows col True df)"
      and le: "?k a \<le> ?k b"
    then have "col a \<noteq> None" and "col b \<noteq> None"
      using assms by (simp_all add: set_sort_rows)
    then obtain x y where "col a = Some x" and "col b = Some y" by auto
    with le show "col b \<le> col a" by simp
  qed
qed

lemma sort_rows_ascending:
  "sorted_wrt (\<lambda>a b. col a \<le> col b) (sort_rows col False df)"
proof -
  have "sorted (map (\<lambda>r. map_option (\<lambda>x::int. x) (col r)) (sort_rows col False df))"
    using sorted_sort_rows_keys [of False col df] by simp
  then show ?thesis
    by (simp add: sorted_map option.map_ident)
qed

lemma completed_today_mset:
  "mset (get_tasks_completed_today today now df) =
     filter_mset
       (\<lambda>r. \<exists>v. last_run_time r = Some v \<and> date_us (dt_date today) \<le> v \<and> v \<le> datetime_us now)
       (mset df)"
  by (simp add: get_tasks_completed_today_def mset_sort_rows mset_filter_rows is_between_true)

lemma completed_today_sorted:
  "sorted_wrt (\<lambda>a b. last_run_time b \<le> last_run_time a)
     (get_tasks_completed_today today now df)"
  unfolding get_tasks_completed_today_def Let_def
  by (rule sort_rows_descending) (auto simp: filter_rows_def is_between_def)

text \<open>
  C8, as the code has it. At a call instant \<open>t\<close> (both clock readings equal to \<open>t\<close>),
  \<^verbatim>\<open>get_tasks_completed_today\<close> returns exactly the rows whose last-run timestamp is
  not null and lies in the closed window from 00:00:00 of \<open>t\<close>'s date up to and including
  \<open>t\<close> itself, as naive microsecond counts, sorted descending by last-run. A last-run before
  today's midnight is excluded; a last-run equal to \<open>t\<close> is included.
\<close>

theorem get_tasks_completed_today_closed_window:
  "mset (get_tasks_completed_today t t df) =
     filter_mset
       (\<lambda>r. \<exists>v. last_run_time r = Some v \<and> date_us (dt_date t) \<le> v \<and> v \<le> datetime_us t)
       (mset df)
   \<and> sorted_wrt (\<lambda>a b. last_run_time b \<le> last_run_time a) (get_tasks_completed_today t t df)"
  by (simp add: completed_today_mset completed_today_sorted)

text \<open>
  C8 as the specification states it, with the window half-open at \<open>t\<close>, fails: called at
  2024-01-01T10:00:00 on a table whose only row last ran at exactly that microsecond, the
  query returns the row, which the half-open window excludes.
\<close>

theorem get_tasks_completed_today_half_open_counterexample:
  "mset (get_tasks_completed_today ten_oclock ten_oclock
           [sample_task ''backup'' None (Some 1704103200000000)]) \<noteq>
     filter_mset
       (\<lambda>r. \<exists>v. last_run_time r = Some v \<and> date_us (dt_date ten_oclock) \<le> v
                 \<and> v < datetime_us ten_oclock)
       (mset [sample_task ''backup'' None (Some 1704103200000000)])"
  by (simp add: completed_today_mset sample_task_def ten_oclock_def at_clock_def
      datetime_us_def date_us_def)

lemma due_today_bounds:
  assumes "valid_datetime t"
  shows "get_tasks_due_today t df =
           Inr (sort_rows next_run_time False
                  (filter_rows
                     (\<lambda>r. is_between (next_run_time r) (datetime_us t) (date_us (dt_date t)))
                     df))"
  using assms
  by (simp add: get_tasks_due_today_def valid_datetime_def mk_timedelta_def date_add_def
      Let_def MAX_HOUR_def MAX_MIN_def MAX_SEC_def MAX_MSEC_def)

lemma due_today_empty_after_midnight:
  assumes "valid_datetime t" and "datetime_us t \<noteq> date_us (dt_date t)"
  shows "get_tasks_due_today t df = Inr []"
proof -
  have "date_us (dt_date t) \<le> datetime_us t"
    by (simp add: datetime_us_def date_us_def)
  with assms(2) have "date_us (dt_date t) < datetime_us t" by simp
  then have "filter_rows
               (\<lambda>r. is_between (next_run_time r) (datetime_us t) (date_us (dt_date t))) df = []"
    by (auto simp: filter_rows_def is_between_true filter_empty_conv)
  then show ?thesis
    by (simp add: due_today_bounds [OF assms(1)] sort_rows_def)
qed

text \<open>
  C1 at a concrete input. Called at 2024-01-01T10:00:00 on a table with a task due at
  12:00:00 of the same day (microsecond 1704110400000000, inside the window the claim
  gives, from the call instant to 23:59:59.999999) and a task due at the following midnight,
  \<^verbatim>\<open>get_tasks_due_today\<close> returns no row at all: the upper bound it computes is the
  date of the call, 00:00:00, since adding a delta of less than a day to a date gives the
  date back.
\<close>

theorem get_tasks_due_today_at_ten_oclock:
  "get_tasks_due_today ten_oclock
     [sample_task ''noon'' (Some 1704110400000000) None,
      sample_task ''midnight'' (Some 1704153600000000) None] = Inr []
   \<and> datetime_us ten_oclock \<le> 1704110400000000
   \<and> 1704110400000000 \<le> date_us (dt_date ten_oclock) + 86399999999"
proof -
  have v: "valid_datetime ten_oclock"
    by (simp add: valid_datetime_def ten_oclock_def at_clock_def)
  have "datetime_us ten_oclock \<noteq> date_us (dt_date ten_oclock)"
    by (simp add: datetime_us_def date_us_def ten_oclock_def at_clock_def)
  from due_today_empty_after_midnight [OF v this] show ?thesis
    by (simp add: datetime_us_def date_us_def ten_oclock_def at_clock_def)
qed

section \<open>Properties of preprocessing\<close>

lemma preprocess_row_derived:
  "task_state_definition (preprocess_row S R r) = replace_values S (cast_str (task_state r))"
  "last_task_result_definition (preprocess_row S R r) =
     replace_values R (cast_str (last_task_result r))"
  "task_folder_name (preprocess_row S R r) =
     (let segments = str_split (CHR 0x5C) (task_path r)
      in if length segments \<le> 2 then Some [CHR 0x5C]
         else list_first (list_slice 1 2 segments))"
  by (simp_all add: preprocess_row_def Let_def task_info.defs task_row.defs)

lemma str_split_nonempty: "str_split sep s \<noteq> []"
  by (induction s) (auto split: list.splits)

lemma str_split_no_sep: "list_all (\<lambda>seg. sep \<notin> set seg) (str_split sep s)"
  by (induction s) (auto split: list.splits)

lemma length_str_split: "length (str_split sep s) = Suc (count_list s sep)"
  by (induction s) (auto split: list.splits simp: str_split_nonempty)

lemma str_join_cons_char:
  "str_join sep ((c # seg) # segs) = c # str_join sep (seg # segs)"
  by (cases segs) simp_all

lemma str_join_nil_cons:
  "segs \<noteq> [] \<Longrightarrow> str_join sep ([] # segs) = sep # str_join sep segs"
  by (cases segs) simp_all

lemma str_join_split: "str_join sep (str_split sep s) = s"
proof (induction s)
  case Nil
  show ?case by simp
next
  case (Cons c cs)
  show ?case
  proof (cases "c = sep")
    case True
    with Cons show ?thesis by (simp add: str_join_nil_cons str_split_nonempty)
  next
    case False
    obtain seg segs where "str_split sep cs = seg # segs"
      using str_split_nonempty [of sep cs] by (cases "str_split sep cs") auto
    with Cons False show ?thesis by (simp add: str_join_cons_char)
  qed
qed

lemma first_of_slice:
  "2 < length xs \<Longrightarrow> list_first (list_slice 1 2 xs) = Some (xs ! 1)"
proof -
  assume "2 < length xs"
  then obtain a b c ys where "xs = a # b # c # ys"
    by (cases xs; cases "tl xs"; cases "tl (tl xs)") auto
  then show ?thesis by (simp add: list_first_def list_slice_def)
qed

lemma top_folder_of_row:
  "task_folder_name (preprocess_row S R r) =
     (if length (str_split (CHR 0x5C) (task_path r)) \<le> 2 then Some [CHR 0x5C]
      else Some (str_split (CHR 0x5C) (task_path r) ! 1))"
proof (cases "length (str_split (CHR 0x5C) (task_path r)) \<le> 2")
  case True
  then show ?thesis by (simp add: preprocess_row_derived)
next
  case False
  then have "2 < length (str_split (CHR 0x5C) (task_path r))" by simp
  from first_of_slice [OF this] False show ?thesis
    by (simp add: preprocess_row_derived)
qed

text \<open>
  C6. Preprocessing derives the state label and the last-result label of every row by
  looking the decimal text of the code up in the lookup table; a code whose text is not a
  key of the table keeps its own text as label. The model is a total function: the missing
  key raises nothing.
\<close>

theorem preprocess_labels:
  "map task_state_definition (preprocess S R df) =
     map (\<lambda>r. case S (cast_str (task_state r)) of
                 Some label \<Rightarrow> label | None \<Rightarrow> cast_str (task_state r)) df
   \<and> map last_task_result_definition (preprocess S R df) =
     map (\<lambda>r. case R (cast_str (last_task_result r)) of
                 Some label \<Rightarrow> label | None \<Rightarrow> cast_str (last_task_result r)) df
   \<and> (\<forall>r \<in> set df. S (cast_str (task_state r)) = None \<longrightarrow>
         task_state_definition (preprocess_row S R r) = cast_str (task_state r))
   \<and> (\<forall>r \<in> set df. R (cast_str (last_task_result r)) = None \<longrightarrow>
         last_task_result_definition (preprocess_row S R r) = cast_str (last_task_result r))"
  by (simp add: preprocess_def preprocess_row_derived replace_values_def)

theorem preprocess_labels_witness:
  "map task_state_definition
     (preprocess [''3'' \<mapsto> ''Ready''] [''0'' \<mapsto> ''The operation completed successfully.'']
        [sample_task ''a'' None None, (sample_task ''b'' None None)\<lparr>task_state := 7, last_task_result := 267011\<rparr>])
     = [''Ready'', ''7'']
   \<and> map last_task_result_definition
     (preprocess [''3'' \<mapsto> ''Ready''] [''0'' \<mapsto> ''The operation completed successfully.'']
        [sample_task ''a'' None None, (sample_task ''b'' None None)\<lparr>task_state := 7, last_task_result := 267011\<rparr>])
     = [''The operation completed successfully.'', ''267011'']
   \<and> [''3'' \<mapsto> ''Ready''] (cast_str 7) = None
   \<and> task_state_definition
       (preprocess_row [''3'' \<mapsto> ''Ready''] [''0'' \<mapsto> ''The operation completed successfully.'']
          ((sample_task ''b'' None None)\<lparr>task_state := 7, last_task_result := 267011\<rparr>)) = cast_str 7"
  using preprocess_labels [of "[''3'' \<mapsto> ''Ready'']"
      "[''0'' \<mapsto> ''The operation completed successfully.'']"
      "[sample_task ''a'' None None, (sample_task ''b'' None None)\<lparr>task_state := 7, last_task_result := 267011\<rparr>]"]
  by (simp add: sample_task_def cast_str_def str_of_nat.simps digit_char_def)

text \<open>
  C7. Preprocessing splits the task path on the backslash: the segments contain no
  backslash and, joined by backslashes, give the path back. The top-folder column is the
  one-backslash string when there are at most two segments and the second segment
  otherwise. The path \<^verbatim>\<open>\A\B\C\<close> has the segments \<open>[[], A, B, C]\<close> and the top
  folder \<open>A\<close>.
\<close>

theorem preprocess_top_folder:
  "map task_folder_name (preprocess S R df) =
     map (\<lambda>r. if length (str_split (CHR 0x5C) (task_path r)) \<le> 2 then Some [CHR 0x5C]
               else Some (str_split (CHR 0x5C) (task_path r) ! 1)) df
   \<and> str_join (CHR 0x5C) (str_split (CHR 0x5C) p) = p
   \<and> list_all (\<lambda>seg. CHR 0x5C \<notin> set seg) (str_split (CHR 0x5C) p)
   \<and> str_split (CHR 0x5C) [CHR 0x5C, CHR ''A'', CHR 0x5C, CHR ''B'', CHR 0x5C, CHR ''C'']
       = [[], ''A'', ''B'', ''C'']
   \<and> task_folder_name
       (preprocess_row S R
          (r\<lparr>task_path := [CHR 0x5C, CHR ''A'', CHR 0x5C, CHR ''B'', CHR 0x5C, CHR ''C'']\<rparr>))
       = Some ''A''"
  by (simp add: preprocess_def top_folder_of_row str_join_split str_split_no_sep)

section \<open>Properties of the executable path extraction\<close>

lemma fold_commands:
  "fold (\<lambda>command exepath. el_text command) cs x =
     (if cs = [] then x else el_text (last cs))"
  by (induction cs arbitrary: x) auto

lemma fold_execs:
  "fold (\<lambda>exe exepath. fold (\<lambda>command exepath. el_text command) (f exe) exepath) es x =
     (if concat (map f es) = [] then x else el_text (last (concat (map f es))))"
  by (induction es arbitrary: x) (auto simp: fold_commands)

lemma fold_acts:
  "fold (\<lambda>act exepath.
           fold (\<lambda>exe exepath. fold (\<lambda>command exepath. el_text command) (f exe) exepath)
             (g act) exepath) acts x =
     (if concat (map f (concat (map g acts))) = [] then x
      else el_text (last (concat (map f (concat (map g acts))))))"
  by (induction acts arbitrary: x) (auto simp: fold_execs)

lemma execpath_last_command:
  "extract_action_execpath root =
     (if command_elements root = [] then Some []
      else el_text (last (command_elements root)))"
  unfolding extract_action_execpath_def command_elements_def exec_actions_def
  by (rule fold_acts)

text \<open>
  C3. The extracted executable path is the text of the last \<^verbatim>\<open>Command\<close> element
  among those reached through \<^verbatim>\<open>Actions\<close>, \<^verbatim>\<open>Exec\<close>, \<^verbatim>\<open>Command\<close> in document
  order, and the empty string when there is none; in particular it is the empty string when
  the definition has no \<^verbatim>\<open>Exec\<close> action. The function is total on element trees.
\<close>

theorem extract_action_execpath_last_wins:
  "extract_action_execpath root =
     (if command_elements root = [] then Some []
      else el_text (last (command_elements root)))
   \<and> (exec_actions root = [] \<longrightarrow> extract_action_execpath root = Some [])"
  by (simp add: execpath_last_command command_elements_def)

theorem extract_action_execpath_last_wins_witness:
  "exec_actions no_exec_definition = []
   \<and> extract_action_execpath no_exec_definition = Some []
   \<and> map el_text (command_elements two_exec_definition) = [Some ''first.exe'', Some ''second.exe'']
   \<and> extract_action_execpath two_exec_definition = Some ''second.exe''"
  using extract_action_execpath_last_wins [of no_exec_definition]
    extract_action_execpath_last_wins [of two_exec_definition]
  by (simp add: no_exec_definition_def two_exec_definition_def exec_actions_def
      command_elements_def findall_def task_ns_def)

section \<open>Properties of the folder methods\<close>

text \<open>
  C9. On a folder wrapper, \<^verbatim>\<open>get_task\<close> raises the \<open>ValueError\<close> that names the task
  exactly when the name is not in the wrapper's task list, \<^verbatim>\<open>delete_folder\<close> raises the
  one that names the folder exactly when the name is not in its subfolder list, and
  \<^verbatim>\<open>create_folder\<close> raises the already-exists \<open>ValueError\<close> exactly when the name is
  in its subfolder list. In each case no other \<open>ValueError\<close> is possible, and on the error
  the provider's state is the one before the call (\<^verbatim>\<open>get_task\<close> only reads it).
\<close>

theorem folder_methods_errors:
  "(get_task root self n = Inl (ValueError (n @ '' does not exist in this folder!''))
      \<longleftrightarrow> n \<notin> set (tasks self))
   \<and> ((\<exists>msg. get_task root self n = Inl (ValueError msg)) \<longleftrightarrow> n \<notin> set (tasks self))
   \<and> (fst (delete_folder root self n) = Inl (ValueError (n @ '' does not exist!''))
      \<longleftrightarrow> n \<notin> set (subfolders self))
   \<and> ((\<exists>msg. fst (delete_folder root self n) = Inl (ValueError msg))
      \<longleftrightarrow> n \<notin> set (subfolders self))
   \<and> (fst (create_folder root self n) = Inl (ValueError (n @ '' already exists!''))
      \<longleftrightarrow> n \<in> set (subfolders self))
   \<and> ((\<exists>msg. fst (create_folder root self n) = Inl (ValueError msg))
      \<longleftrightarrow> n \<in> set (subfolders self))
   \<and> (n \<notin> set (subfolders self) \<longrightarrow> snd (delete_folder root self n) = root)
   \<and> (n \<in> set (subfolders self) \<longrightarrow> snd (create_folder root self n) = root)"
  by (auto simp: get_task_def delete_folder_def create_folder_def CreateFolder_def
      DeleteFolder_def split: option.splits sum.splits if_splits)

theorem folder_methods_errors_witness:
  "''missing'' \<notin> set (tasks (TaskFolder sample_root []))
   \<and> get_task sample_root (TaskFolder sample_root []) ''missing''
       = Inl (ValueError ''missing does not exist in this folder!'')
   \<and> ''Archive'' \<notin> set (subfolders (TaskFolder sample_root []))
   \<and> delete_folder sample_root (TaskFolder sample_root []) ''Archive''
       = (Inl (ValueError ''Archive does not exist!''), sample_root)
   \<and> ''Reports'' \<in> set (subfolders (TaskFolder sample_root []))
   \<and> create_folder sample_root (TaskFolder sample_root []) ''Reports''
       = (Inl (ValueError ''Reports already exists!''), sample_root)"
  using folder_methods_errors [of sample_root "TaskFolder sample_root []" "''missing''"]
    folder_methods_errors [of sample_root "TaskFolder sample_root []" "''Archive''"]
    folder_methods_errors [of sample_root "TaskFolder sample_root []" "''Reports''"]
  by (simp add: TaskFolder_def sample_root_def prod_eq_iff)

section \<open>Properties of registration\<close>

lemma Name_update_folder:
  assumes "\<And>f. Name (g f) = Name f"
  shows "Name (update_folder g p f) = Name f"
  using assms by (cases p) simp_all

lemma find_update_first:
  assumes "find P xs = Some x" and "P (h x)"
  shows "find P (update_first P h xs) = Some (h x)"
  using assms by (induction xs) (auto split: if_splits)

lemma GetFolder_update_folder:
  assumes "\<And>f. Name (g f) = Name f" and "GetFolder root p = Some f"
  shows "GetFolder (update_folder g p root) p = Some (g f)"
  using assms(2)
proof (induction p arbitrary: root)
  case Nil
  then show ?case by simp
next
  case (Cons n ns)
  from Cons.prems obtain sf where
    found: "find (\<lambda>sf. Name sf = n) (GetFolders root) = Some sf"
    and below: "GetFolder sf ns = Some f"
    by (auto split: option.splits)
  from found have "Name sf = n"
    by (auto simp: find_Some_iff)
  then have "Name (update_folder g ns sf) = n"
    by (simp add: Name_update_folder assms(1))
  with found have
    "find (\<lambda>sf. Name sf = n)
       (update_first (\<lambda>sf. Name sf = n) (\<lambda>sf. update_folder g ns sf) (GetFolders root))
     = Some (update_folder g ns sf)"
    by (intro find_update_first) simp_all
  with Cons.IH [OF below] show ?case by simp
qed

lemma map_of_overwrite:
  assumes "n \<in> set (map fst xs)"
  shows "map_of (map (\<lambda>(k, old). if k = n then (k, entry) else (k, old)) xs) n = Some entry"
  using assms
proof (induction xs)
  case Nil
  then show ?case by simp
next
  case (Cons x xs)
  obtain k v where x: "x = (k, v)" by (cases x)
  show ?case
  proof (cases "k = n")
    case True
    with x show ?thesis by simp
  next
    case False
    with x Cons show ?thesis by simp
  qed
qed

lemma map_of_overwrite_other:
  assumes "k \<noteq> n"
  shows "map_of (map (\<lambda>(k, old). if k = n then (k, entry) else (k, old)) xs) k = map_of xs k"
proof (induction xs)
  case Nil
  show ?case by simp
next
  case (Cons x xs)
  obtain k' v where x: "x = (k', v)" by (cases x)
  with Cons assms show ?case by simp
qed

lemma names_overwrite:
  "map fst (map (\<lambda>(k, old). if k = n then (k, entry) else (k, old)) xs) = map fst xs"
proof (induction xs)
  case Nil
  show ?case by simp
next
  case (Cons x xs)
  obtain k v where "x = (k, v)" by (cases x)
  with Cons show ?case by simp
qed

lemma map_of_add:
  assumes "n \<notin> set (map fst xs)"
  shows "map_of (xs @ [(n, entry)]) n = Some entry"
  using assms
proof (induction xs)
  case Nil
  show ?case by simp
next
  case (Cons x xs)
  obtain k v where "x = (k, v)" by (cases x)
  with Cons show ?case by simp
qed

lemma register_new_task_existing:
  assumes "GetFolder root (folder self) = Some f"
    and "task_name \<in> set (map fst (GetTasks f))"
  shows "register_new_task root self task_name new_taskdef =
           (Inr (),
            update_folder
              (\<lambda>f. Folder (Name f)
                      (map (\<lambda>(k, old).
                              if k = task_name
                              then (k, \<lparr>reg_definition = new_taskdef, reg_user = [],
                                        reg_password = [], reg_logon = TASK_LOGON_NONE\<rparr>)
                              else (k, old))
                         (GetTasks f))
                      (GetFolders f))
              (folder self) root)"
  using assms by (simp add: register_new_task_def RegisterTaskDefinition_def Let_def)

lemma register_new_task_fresh:
  assumes "GetFolder root (folder self) = Some f"
    and "task_name \<notin> set (map fst (GetTasks f))"
  shows "register_new_task root self task_name new_taskdef =
           (Inr (),
            update_folder
              (\<lambda>f. Folder (Name f)
                      (GetTasks f @
                         [(task_name, \<lparr>reg_definition = new_taskdef, reg_user = [],
                                        reg_password = [], reg_logon = TASK_LOGON_NONE\<rparr>)])
                      (GetFolders f))
              (folder self) root)"
  using assms by (simp add: register_new_task_def RegisterTaskDefinition_def Let_def)

lemma register_new_task_registers:
  assumes "GetFolder root (folder self) = Some f"
  shows "\<exists>root'. register_new_task root self task_name new_taskdef = (Inr (), root')
           \<and> GetTask root' (folder self) task_name =
               Some \<lparr>reg_definition = new_taskdef, reg_user = [], reg_password = [],
                     reg_logon = TASK_LOGON_NONE\<rparr>"
proof (cases "task_name \<in> set (map fst (GetTasks f))")
  case True
  let ?entry = "\<lparr>reg_definition = new_taskdef, reg_user = [], reg_password = [],
                  reg_logon = TASK_LOGON_NONE\<rparr>"
  let ?g = "\<lambda>f. Folder (Name f)
                   (map (\<lambda>(k, old). if k = task_name then (k, ?entry) else (k, old)) (GetTasks f))
                   (GetFolders f)"
  have reg: "register_new_task root self task_name new_taskdef =
               (Inr (), update_folder ?g (folder self) root)"
    by (rule register_new_task_existing [OF assms True])
  have "GetFolder (update_folder ?g (folder self) root) (folder self) = Some (?g f)"
    by (rule GetFolder_update_folder [OF _ assms]) simp
  then have "GetTask (update_folder ?g (folder self) root) (folder self) task_name = Some ?entry"
    using True by (simp add: GetTask_def map_of_overwrite)
  with reg show ?thesis by blast
next
  case False
  let ?entry = "\<lparr>reg_definition = new_taskdef, reg_user = [], reg_password = [],
                  reg_logon = TASK_LOGON_NONE\<rparr>"
  let ?g = "\<lambda>f. Folder (Name f) (GetTasks f @ [(task_name, ?entry)]) (GetFolders f)"
  have reg: "register_new_task root self task_name new_taskdef =
               (Inr (), update_folder ?g (folder self) root)"
    by (rule register_new_task_fresh [OF assms False])
  have "GetFolder (update_folder ?g (folder self) root) (folder self) = Some (?g f)"
    by (rule GetFolder_update_folder [OF _ assms]) simp
  then have "GetTask (update_folder ?g (folder self) root) (folder self) task_name = Some ?entry"
    using False by (simp add: GetTask_def map_of_add del: map_of_append)
  with reg show ?thesis by blast
qed

text \<open>
  C5. Registering a definition in an existing folder under a name that is already
  registered there succeeds: the folder's list of task names is the same as before (no
  second entry), the task of that name is now the new definition, every other task is
  untouched, and the registration carries an empty user, an empty password and the logon
  type \<open>TASK_LOGON_NONE\<close>.
\<close>

theorem register_new_task_overwrites:
  assumes "GetFolder root (folder self) = Some f"
    and "task_name \<in> set (map fst (GetTasks f))"
  shows "\<exists>root' f'.
           register_new_task root self task_name new_taskdef = (Inr (), root')
           \<and> GetFolder root' (folder self) = Some f'
           \<and> map fst (GetTasks f') = map fst (GetTasks f)
           \<and> map_of (GetTasks f') task_name =
               Some \<lparr>reg_definition = new_taskdef, reg_user = [], reg_password = [],
                     reg_logon = TASK_LOGON_NONE\<rparr>
           \<and> (\<forall>k. k \<noteq> task_name \<longrightarrow> map_of (GetTasks f') k = map_of (GetTasks f) k)"
proof -
  let ?entry = "\<lparr>reg_definition = new_taskdef, reg_user = [], reg_password = [],
                  reg_logon = TASK_LOGON_NONE\<rparr>"
  let ?g = "\<lambda>f. Folder (Name f)
                   (map (\<lambda>(k, old). if k = task_name then (k, ?entry) else (k, old)) (GetTasks f))
                   (GetFolders f)"
  have reg: "register_new_task root self task_name new_taskdef =
               (Inr (), update_folder ?g (folder self) root)"
    by (rule register_new_task_existing [OF assms])
  have got: "GetFolder (update_folder ?g (folder self) root) (folder self) = Some (?g f)"
    by (rule GetFolder_update_folder [OF _ assms(1)]) simp
  have names: "map fst (GetTasks (?g f)) = map fst (GetTasks f)"
    using names_overwrite [of task_name ?entry "GetTasks f"] by simp
  have new: "map_of (GetTasks (?g f)) task_name = Some ?entry"
    using assms(2) by (simp add: map_of_overwrite)
  have others: "\<forall>k. k \<noteq> task_name \<longrightarrow> map_of (GetTasks (?g f)) k = map_of (GetTasks f) k"
    by (simp add: map_of_overwrite_other)
  from reg got names new others show ?thesis by blast
qed

theorem register_new_task_overwrites_witness:
  "GetFolder sample_root (folder (TaskFolder sample_root [])) = Some sample_root
   \<and> ''backup'' \<in> set (map fst (GetTasks sample_root))
   \<and> register_new_task sample_root (TaskFolder sample_root []) ''backup'' empty_definition =
       (Inr (),
        Folder []
          [(''backup'', \<lparr>reg_definition = empty_definition, reg_user = [], reg_password = [],
                         reg_logon = TASK_LOGON_NONE\<rparr>)]
          [Folder ''Reports'' [(''nightly'', sample_registration)] [],
           Folder ''Empty'' [] []])"
  using register_new_task_overwrites
    [of sample_root "TaskFolder sample_root []" sample_root "''backup''" empty_definition]
  by (simp add: sample_root_def TaskFolder_def register_new_task_def
      RegisterTaskDefinition_def)

section \<open>Properties of task creation\<close>

lemma get_folder_resolves:
  assumes "get_folder root (Some n) = Inr target"
  shows "\<exists>f. GetFolder root (folder target) = Some f"
  using assms
  by (auto simp: get_folder_def TaskFolder_def split: option.splits)

lemma create_task_missing_folder:
  assumes "get_folder (root_folder st) (Some (p_folder_name a)) = Inl e"
  shows "create_task st a = (Inl e, st)"
  using assms by (simp add: create_task_def)

lemma create_task_steps:
  assumes "get_folder (root_folder st) (Some (p_folder_name a)) = Inr target"
  shows "create_task st a =
           (case match_action_type a (match_trigger_type a empty_definition) of
              Inl e \<Rightarrow>
                (Inl e,
                 st\<lparr>definitions := definitions st @ [match_trigger_type a empty_definition]\<rparr>)
            | Inr with_action \<Rightarrow>
                (case register_new_task (root_folder st) target (p_task_name a)
                        (write_settings a with_action) of
                   (Inl e, root') \<Rightarrow>
                     (Inl e,
                      st\<lparr>definitions := definitions st @ [write_settings a with_action],
                         root_folder := root'\<rparr>)
                 | (Inr u, root') \<Rightarrow>
                     (Inr (length (definitions st)),
                      st\<lparr>definitions := definitions st @ [write_settings a with_action],
                         root_folder := root'\<rparr>)))"
  using assms
  by (simp add: create_task_def NewTask_def modify_definition_def Let_def
      split: sum.splits prod.splits)

lemma supported_trigger_built:
  assumes "p_trigger_type a \<in> {''daily'', ''weekly'', ''monthly'', ''monthlydow'', ''one-time''}"
  shows "length (trigger_kinds (Triggers (match_trigger_type a empty_definition))) = 1
         \<and> StartBoundary (Triggers (match_trigger_type a empty_definition)) =
             Some (datetime_combine (p_start_date a) (p_start_time a))
         \<and> action_kinds (Actions (match_trigger_type a empty_definition)) = []"
  using assms
  by (auto simp: match_trigger_type_def create_daily_trigger_def create_weekly_trigger_def
      create_monthly_trigger_def create_one_time_trigger_def set_cadence_def
      set_start_boundary_def empty_definition_def Let_def)

lemma unsupported_action_raises:
  assumes "p_action_type a \<in> {''com-handler'', ''email'', ''show-message''}"
  shows "\<exists>msg. match_action_type a td = Inl (NotImplementedError msg)"
  using assms by (auto simp: match_action_type_def)

lemma unknown_trigger_no_case:
  assumes "p_trigger_type a \<notin> {''daily'', ''weekly'', ''monthly'', ''monthlydow'', ''one-time''}"
  shows "match_trigger_type a td = td"
  using assms by (simp add: match_trigger_type_def)

text \<open>
  C4, as the code has it. When the folder lookup succeeds, a call with one of the five
  trigger types and one of the three unsupported action types ends in
  \<open>NotImplementedError\<close>: nothing is registered (the provider's folder tree is the one
  before the call), and the definition that the call leaves behind has its trigger created
  and its start boundary set and has no action, so the trigger was built before the action
  type was looked at. When the folder lookup fails, the call ends in the lookup's error and
  builds nothing.
\<close>

theorem create_task_unsupported_action:
  "(get_folder (root_folder st) (Some (p_folder_name a)) = Inr target
     \<and> p_trigger_type a \<in> {''daily'', ''weekly'', ''monthly'', ''monthlydow'', ''one-time''}
     \<and> p_action_type a \<in> {''com-handler'', ''email'', ''show-message''}
    \<longrightarrow> (\<exists>msg td.
           create_task st a =
             (Inl (NotImplementedError msg), st\<lparr>definitions := definitions st @ [td]\<rparr>)
           \<and> length (trigger_kinds (Triggers td)) = 1
           \<and> StartBoundary (Triggers td) =
               Some (datetime_combine (p_start_date a) (p_start_time a))
           \<and> action_kinds (Actions td) = []))
   \<and> (get_folder (root_folder st) (Some (p_folder_name a)) = Inl e
      \<longrightarrow> create_task st a = (Inl e, st))"
proof (intro conjI impI)
  assume h: "get_folder (root_folder st) (Some (p_folder_name a)) = Inr target
     \<and> p_trigger_type a \<in> {''daily'', ''weekly'', ''monthly'', ''monthlydow'', ''one-time''}
     \<and> p_action_type a \<in> {''com-handler'', ''email'', ''show-message''}"
  let ?td = "match_trigger_type a empty_definition"
  from h obtain msg where "match_action_type a ?td = Inl (NotImplementedError msg)"
    using unsupported_action_raises by blast
  with h have "create_task st a =
      (Inl (NotImplementedError msg), st\<lparr>definitions := definitions st @ [?td]\<rparr>)"
    by (simp add: create_task_steps)
  moreover from h have "length (trigger_kinds (Triggers ?td)) = 1
      \<and> StartBoundary (Triggers ?td) = Some (datetime_combine (p_start_date a) (p_start_time a))
      \<and> action_kinds (Actions ?td) = []"
    by (intro supported_trigger_built) simp
  ultimately show "\<exists>msg td.
           create_task st a =
             (Inl (NotImplementedError msg), st\<lparr>definitions := definitions st @ [td]\<rparr>)
           \<and> length (trigger_kinds (Triggers td)) = 1
           \<and> StartBoundary (Triggers td) =
               Some (datetime_combine (p_start_date a) (p_start_time a))
           \<and> action_kinds (Actions td) = []"
    by blast
next
  assume "get_folder (root_folder st) (Some (p_folder_name a)) = Inl e"
  then show "create_task st a = (Inl e, st)"
    by (rule create_task_missing_folder)
qed

lemma sample_reports_folder:
  "get_folder sample_root (Some ''Reports'') =
     Inr \<lparr>folder = [''Reports''], subfolders = [], tasks = [''nightly'']\<rparr>"
  by (simp add: get_folder_def sample_root_def TaskFolder_def)

lemma sample_missing_folder:
  "get_folder sample_root (Some ''Missing'') = Inl (ValueError ''Could not find Missing'')"
  by (simp add: get_folder_def sample_root_def)

theorem create_task_unsupported_action_witness:
  "p_trigger_type sample_args = ''monthlydow'' \<and> p_action_type sample_args = ''email''
   \<and> get_folder (root_folder sample_scheduler) (Some (p_folder_name sample_args)) =
       Inr \<lparr>folder = [''Reports''], subfolders = [], tasks = [''nightly'']\<rparr>
   \<and> fst (create_task sample_scheduler sample_args) =
       Inl (NotImplementedError ''Create send email action has not been implemented'')
   \<and> root_folder (snd (create_task sample_scheduler sample_args)) = sample_root
   \<and> map (\<lambda>td. trigger_kinds (Triggers td))
       (definitions (snd (create_task sample_scheduler sample_args))) = [[TASK_TRIGGER_MONTHLYDOW]]"
proof -
  have f: "get_folder (root_folder sample_scheduler) (Some (p_folder_name sample_args)) =
       Inr \<lparr>folder = [''Reports''], subfolders = [], tasks = [''nightly'']\<rparr>"
    by (simp add: sample_scheduler_def sample_args_def sample_reports_folder)
  have t: "p_trigger_type sample_args = ''monthlydow''" and ac: "p_action_type sample_args = ''email''"
    by (simp_all add: sample_args_def)
  from create_task_unsupported_action
    [of sample_scheduler sample_args "\<lparr>folder = [''Reports''], subfolders = [], tasks = [''nightly'']\<rparr>"]
    f t ac
  obtain msg td where
    r: "create_task sample_scheduler sample_args =
          (Inl (NotImplementedError msg),
           sample_scheduler\<lparr>definitions := definitions sample_scheduler @ [td]\<rparr>)"
    by auto
  have "create_task sample_scheduler sample_args =
          (Inl (NotImplementedError ''Create send email action has not been implemented''),
           sample_scheduler\<lparr>definitions :=
             definitions sample_scheduler @ [match_trigger_type sample_args empty_definition]\<rparr>)"
    using f ac by (simp add: create_task_steps match_action_type_def)
  moreover have "trigger_kinds (Triggers (match_trigger_type sample_args empty_definition)) =
      [TASK_TRIGGER_MONTHLYDOW]"
    using t by (simp add: match_trigger_type_def create_monthly_trigger_def set_cadence_def
        set_start_boundary_def empty_definition_def Let_def)
  ultimately show ?thesis
    using f t ac r by (simp add: sample_scheduler_def)
qed

text \<open>
  C4 as the specification states it, for every call, fails: with the trigger type
  \<^verbatim>\<open>monthlydow\<close> and the action type \<^verbatim>\<open>email\<close>, a call that names a folder the
  provider does not have ends in the \<open>ValueError\<close> of the folder lookup, not in
  \<open>NotImplementedError\<close>, and no trigger is built.
\<close>

theorem create_task_unsupported_action_counterexample:
  "p_trigger_type (sample_args\<lparr>p_folder_name := ''Missing''\<rparr>) = ''monthlydow''
   \<and> p_action_type (sample_args\<lparr>p_folder_name := ''Missing''\<rparr>) = ''email''
   \<and> create_task sample_scheduler (sample_args\<lparr>p_folder_name := ''Missing''\<rparr>) =
       (Inl (ValueError ''Could not find Missing''), sample_scheduler)"
  by (simp add: create_task_missing_folder sample_missing_folder sample_scheduler_def
      sample_args_def)

lemma exec_action_attached:
  assumes "p_action_type a = ''exec''"
  shows "match_action_type a td = Inr (create_execution_action (p_action_file a) (p_action_arg a)
           (p_action_working_dir a) td)"
  using assms by (simp add: match_action_type_def)

lemma registered_definition_shape:
  "trigger_kinds (Triggers (write_settings a (create_execution_action file arg dir td))) =
     trigger_kinds (Triggers td)"
  "StartBoundary (Triggers (write_settings a (create_execution_action file arg dir td))) =
     StartBoundary (Triggers td)"
  "action_kinds (Actions (write_settings a (create_execution_action file arg dir td))) =
     action_kinds (Actions td) @ [TASK_ACTION_EXEC]"
  "Path (Actions (write_settings a (create_execution_action file arg dir td))) = Some file"
  by (simp_all add: write_settings_def create_execution_action_def)

text \<open>
  C10, as the code has it. A trigger type outside the five supported values matches no
  case: the definition is left as it was and no error comes from the trigger. When, in
  addition, the folder lookup succeeds and the action type is \<^verbatim>\<open>exec\<close>, the call
  succeeds and the task is registered in the folder under its name with a definition that
  has the execute action and no trigger (none created, no start boundary).
\<close>

theorem create_task_unknown_trigger_type:
  "(p_trigger_type a \<notin> {''daily'', ''weekly'', ''monthly'', ''monthlydow'', ''one-time''}
    \<longrightarrow> match_trigger_type a td = td)
   \<and> (p_trigger_type a \<notin> {''daily'', ''weekly'', ''monthly'', ''monthlydow'', ''one-time''}
      \<and> p_action_type a = ''exec''
      \<and> get_folder (root_folder st) (Some (p_folder_name a)) = Inr target
     \<longrightarrow> (\<exists>st' reg.
            create_task st a = (Inr (length (definitions st)), st')
            \<and> GetTask (root_folder st') (folder target) (p_task_name a) = Some reg
            \<and> trigger_kinds (Triggers (reg_definition reg)) = []
            \<and> StartBoundary (Triggers (reg_definition reg)) = None
            \<and> action_kinds (Actions (reg_definition reg)) = [TASK_ACTION_EXEC]
            \<and> Path (Actions (reg_definition reg)) = Some (p_action_file a)))"
proof (intro conjI impI)
  assume "p_trigger_type a \<notin> {''daily'', ''weekly'', ''monthly'', ''monthlydow'', ''one-time''}"
  then show "match_trigger_type a td = td"
    by (rule unknown_trigger_no_case)
next
  assume h: "p_trigger_type a \<notin> {''daily'', ''weekly'', ''monthly'', ''monthlydow'', ''one-time''}
      \<and> p_action_type a = ''exec''
      \<and> get_folder (root_folder st) (Some (p_folder_name a)) = Inr target"
  let ?td = "write_settings a
               (create_execution_action (p_action_file a) (p_action_arg a)
                  (p_action_working_dir a) empty_definition)"
  let ?reg = "\<lparr>reg_definition = ?td, reg_user = [], reg_password = [],
                reg_logon = TASK_LOGON_NONE\<rparr>"
  from h have trig: "match_trigger_type a empty_definition = empty_definition"
    by (simp add: unknown_trigger_no_case)
  from h have act: "match_action_type a empty_definition =
      Inr (create_execution_action (p_action_file a) (p_action_arg a)
             (p_action_working_dir a) empty_definition)"
    by (simp add: exec_action_attached)
  from h obtain f where "GetFolder (root_folder st) (folder target) = Some f"
    using get_folder_resolves by blast
  from register_new_task_registers [OF this, of "p_task_name a" ?td]
  obtain root' where
    reg: "register_new_task (root_folder st) target (p_task_name a) ?td = (Inr (), root')"
    and got: "GetTask root' (folder target) (p_task_name a) = Some ?reg"
    by blast
  from h have "create_task st a =
      (Inr (length (definitions st)),
       st\<lparr>definitions := definitions st @ [?td], root_folder := root'\<rparr>)"
    by (simp add: create_task_steps trig act reg)
  moreover have "GetTask (root_folder (st\<lparr>definitions := definitions st @ [?td],
      root_folder := root'\<rparr>)) (folder target) (p_task_name a) = Some ?reg"
    using got by simp
  moreover have "trigger_kinds (Triggers (reg_definition ?reg)) = []"
    and "StartBoundary (Triggers (reg_definition ?reg)) = None"
    and "action_kinds (Actions (reg_definition ?reg)) = [TASK_ACTION_EXEC]"
    and "Path (Actions (reg_definition ?reg)) = Some (p_action_file a)"
    by (simp_all add: registered_definition_shape empty_definition_def)
  ultimately show "\<exists>st' reg.
            create_task st a = (Inr (length (definitions st)), st')
            \<and> GetTask (root_folder st') (folder target) (p_task_name a) = Some reg
            \<and> trigger_kinds (Triggers (reg_definition reg)) = []
            \<and> StartBoundary (Triggers (reg_definition reg)) = None
            \<and> action_kinds (Actions (reg_definition reg)) = [TASK_ACTION_EXEC]
            \<and> Path (Actions (reg_definition reg)) = Some (p_action_file a)"
    by blast
qed

theorem create_task_unknown_trigger_type_witness:
  "p_trigger_type (sample_args\<lparr>p_trigger_type := ''hourly'', p_action_type := ''exec''\<rparr>)
     \<notin> {''daily'', ''weekly'', ''monthly'', ''monthlydow'', ''one-time''}
   \<and> get_folder (root_folder sample_scheduler) (Some ''Reports'') =
       Inr \<lparr>folder = [''Reports''], subfolders = [], tasks = [''nightly'']\<rparr>
   \<and> fst (create_task sample_scheduler
            (sample_args\<lparr>p_trigger_type := ''hourly'', p_action_type := ''exec''\<rparr>)) = Inr 0
   \<and> map_option (\<lambda>reg. (trigger_kinds (Triggers (reg_definition reg)),
                         action_kinds (Actions (reg_definition reg))))
       (GetTask
          (root_folder (snd (create_task sample_scheduler
             (sample_args\<lparr>p_trigger_type := ''hourly'', p_action_type := ''exec''\<rparr>))))
          [''Reports''] ''monthly'') = Some ([], [TASK_ACTION_EXEC])"
proof -
  let ?a = "sample_args\<lparr>p_trigger_type := ''hourly'', p_action_type := ''exec''\<rparr>"
  let ?target = "\<lparr>folder = [''Reports''], subfolders = [], tasks = [''nightly'']\<rparr>"
  have t: "p_trigger_type ?a \<notin> {''daily'', ''weekly'', ''monthly'', ''monthlydow'', ''one-time''}"
    by simp
  have ac: "p_action_type ?a = ''exec''" by simp
  have f: "get_folder (root_folder sample_scheduler) (Some (p_folder_name ?a)) = Inr ?target"
    by (simp add: sample_scheduler_def sample_args_def sample_reports_folder)
  from create_task_unknown_trigger_type [of ?a _ sample_scheduler ?target] t ac f
  obtain st' reg where
    "create_task sample_scheduler ?a = (Inr (length (definitions sample_scheduler)), st')"
    and "GetTask (root_folder st') (folder ?target) (p_task_name ?a) = Some reg"
    and "trigger_kinds (Triggers (reg_definition reg)) = []"
    and "action_kinds (Actions (reg_definition reg)) = [TASK_ACTION_EXEC]"
    by blast
  then show ?thesis
    using f t by (simp add: sample_scheduler_def sample_args_def)
qed

text \<open>
  C10 as the specification states it, for every call with an unsupported trigger type,
  fails: with the trigger type \<^verbatim>\<open>hourly\<close> and the action type \<^verbatim>\<open>email\<close> the call
  ends in \<open>NotImplementedError\<close>, and the folder has no task of the requested name
  afterwards.
\<close>

theorem create_task_unknown_trigger_type_counterexample:
  "p_trigger_type (sample_args\<lparr>p_trigger_type := ''hourly''\<rparr>)
     \<notin> {''daily'', ''weekly'', ''monthly'', ''monthlydow'', ''one-time''}
   \<and> fst (create_task sample_scheduler (sample_args\<lparr>p_trigger_type := ''hourly''\<rparr>)) =
       Inl (NotImplementedError ''Create send email action has not been implemented'')
   \<and> GetTask
       (root_folder (snd (create_task sample_scheduler (sample_args\<lparr>p_trigger_type := ''hourly''\<rparr>))))
       [''Reports''] ''monthly'' = None"
proof -
  let ?a = "sample_args\<lparr>p_trigger_type := ''hourly''\<rparr>"
  have f: "get_folder (root_folder sample_scheduler) (Some (p_folder_name ?a)) =
       Inr \<lparr>folder = [''Reports''], subfolders = [], tasks = [''nightly'']\<rparr>"
    by (simp add: sample_scheduler_def sample_args_def sample_reports_folder)
  have "p_action_type ?a = ''email''"
    by (simp add: sample_args_def)
  then have "create_task sample_scheduler ?a =
      (Inl (NotImplementedError ''Create send email action has not been implemented''),
       sample_scheduler\<lparr>definitions :=
         definitions sample_scheduler @ [match_trigger_type ?a empty_definition]\<rparr>)"
    by (simp add: create_task_steps [OF f] match_action_type_def)
  then show ?thesis
    by (simp add: sample_scheduler_def sample_root_def GetTask_def)
qed

section \<open>Properties of the enumeration\<close>

lemma preprocess_keeps_columns:
  "map name (preprocess S R df) = map name df"
  "map task_path (preprocess S R df) = map task_path df"
  by (simp_all add: preprocess_def preprocess_row_def Let_def task_info.defs task_row.defs)

lemma shadowed_get_folder:
  "get_folder shadowed_tree None = Inr \<lparr>folder = [], subfolders = [''A'', ''X''], tasks = []\<rparr>"
  "get_folder shadowed_tree (Some ''A'') =
     Inr \<lparr>folder = [''A''], subfolders = [''X''], tasks = []\<rparr>"
  "get_folder shadowed_tree (Some ''X'') =
     Inr \<lparr>folder = [''A'', ''X''], subfolders = [], tasks = [''inner'']\<rparr>"
  by (simp_all add: get_folder_def shadowed_tree_def TaskFolder_def)

lemma shadowed_get_task:
  "get_task shadowed_tree \<lparr>folder = [''A'', ''X''], subfolders = [], tasks = [''inner'']\<rparr> ''inner''
     = Inr (sample_rtask [''A'', ''X''] ''inner'')"
  by (simp add: get_task_def GetTask_def shadowed_tree_def)

lemma shadowed_listing:
  "list_tasks_info_in_folder (Suc (Suc (Suc k))) shadowed_tree
     \<lparr>folder = [], subfolders = [''A'', ''X''], tasks = []\<rparr> [CHR 0x5C] [] =
   Inr [info (sample_rtask [''A'', ''X''] ''inner''), info (sample_rtask [''A'', ''X''] ''inner'')]"
  by (simp add: shadowed_get_folder shadowed_get_task)

text \<open>
  C2 at a concrete input. On the tree with the folders \<^verbatim>\<open>\A\X\<close> (task \<open>inner\<close>) and
  \<^verbatim>\<open>\X\<close> (task \<open>outer\<close>), with any recursion depth of three or more,
  \<^verbatim>\<open>get_all_tasks\<close> returns the record of \<open>inner\<close> twice and no record of \<open>outer\<close>:
  the walk fetches each subfolder by its bare name from the root, and the first folder
  named \<open>X\<close> in that search is \<^verbatim>\<open>\A\X\<close> both times. The depth-first enumeration of
  the tree has \<open>inner\<close> once and \<open>outer\<close> once.
\<close>

theorem get_all_tasks_shadowed_folder:
  "(\<exists>rows. get_all_tasks (Suc (Suc (Suc k))) shadowed_tree S R = Inr rows
       \<and> map task_path rows = [task_path_of [''A'', ''X'', ''inner''],
                                task_path_of [''A'', ''X'', ''inner'']])
   \<and> map rt_Path (tasks_depth_first shadowed_tree) =
       [task_path_of [''A'', ''X'', ''inner''], task_path_of [''X'', ''outer'']]"
proof -
  have "get_all_tasks (Suc (Suc (Suc k))) shadowed_tree S R =
      Inr (preprocess S R
             [info (sample_rtask [''A'', ''X''] ''inner''),
              info (sample_rtask [''A'', ''X''] ''inner'')])"
    by (simp add: get_all_tasks_def shadowed_get_folder(1) shadowed_listing
        del: list_tasks_info_in_folder.simps)
  moreover have "map task_path (preprocess S R
             [info (sample_rtask [''A'', ''X''] ''inner''),
              info (sample_rtask [''A'', ''X''] ''inner'')]) =
      [task_path_of [''A'', ''X'', ''inner''], task_path_of [''A'', ''X'', ''inner'']]"
    by (simp add: preprocess_keeps_columns info_def sample_rtask_def Let_def)
  moreover have "map rt_Path (tasks_depth_first shadowed_tree) =
       [task_path_of [''A'', ''X'', ''inner''], task_path_of [''X'', ''outer'']]"
    by (simp add: shadowed_tree_def sample_rtask_def)
  ultimately show ?thesis by (intro conjI exI) assumption+
qed

lemma nested_get_folder:
  "get_folder nested_tree (Some ''A'') =
     Inr \<lparr>folder = [''A''], subfolders = [''A''], tasks = [''outer'']\<rparr>"
  by (simp add: get_folder_def nested_tree_def TaskFolder_def)

lemma nested_get_task:
  "get_task nested_tree \<lparr>folder = [''A''], subfolders = [''A''], tasks = [''outer'']\<rparr> ''outer''
     = Inr (sample_rtask [''A''] ''outer'')"
  by (simp add: get_task_def GetTask_def nested_tree_def)

lemma nested_listing_never_returns:
  "list_tasks_info_in_folder depth nested_tree
     \<lparr>folder = [''A''], subfolders = [''A''], tasks = [''outer'']\<rparr> fn acc = Inl RecursionError"
proof (induction depth arbitrary: fn acc)
  case 0
  show ?case by simp
next
  case (Suc depth)
  show ?case by (simp add: nested_get_folder nested_get_task Suc)
qed

lemma get_all_tasks_nested_folder:
  "get_all_tasks depth nested_tree S R = Inl RecursionError"
proof (cases depth)
  case 0
  then show ?thesis
    by (simp add: get_all_tasks_def get_folder_def)
next
  case (Suc d)
  then show ?thesis
    by (simp add: get_all_tasks_def get_folder_def TaskFolder_def nested_tree_def
        nested_get_folder [unfolded nested_tree_def]
        nested_listing_never_returns [unfolded nested_tree_def])
qed

subsection \<open>The enumeration on trees with distinct folder names\<close>

lemma GetFolder_append:
  "GetFolder f (p @ q) = (case GetFolder f p of None \<Rightarrow> None | Some g \<Rightarrow> GetFolder g q)"
  by (induction p arbitrary: f) (auto split: option.splits)

lemma folder_names_unfold:
  "folder_names f = concat (map (\<lambda>sf. Name sf # folder_names sf) (GetFolders f))"
  by (cases f) simp

lemma task_names_unique_unfold:
  "task_names_unique f \<longleftrightarrow>
     distinct (map fst (GetTasks f)) \<and> list_all task_names_unique (GetFolders f)"
  by (cases f) simp

lemma height_unfold:
  "height f = Suc (foldr (\<lambda>sf m. max (height sf) m) (GetFolders f) 0)"
  by (cases f) simp

lemma tasks_depth_first_unfold:
  "tasks_depth_first f = map snd (GetTasks f) @ concat (map tasks_depth_first (GetFolders f))"
  by (cases f) simp

lemma find_in_set: "find P xs = Some x \<Longrightarrow> x \<in> set xs \<and> P x"
  by (induction xs) (auto split: if_splits)

lemma child_names_subset:
  assumes "c \<in> set (GetFolders f)"
  shows "Name c \<in> set (folder_names f)" and "set (folder_names c) \<subseteq> set (folder_names f)"
  using assms by (auto simp: folder_names_unfold [of f])

lemma distinct_concat_member:
  assumes "distinct (concat xss)" and "xs \<in> set xss"
  shows "distinct xs"
  using assms by (induction xss) auto

lemma child_names_distinct:
  assumes "distinct (folder_names f)" and "c \<in> set (GetFolders f)"
  shows "distinct (folder_names c)"
proof -
  from assms(2) have "(Name c # folder_names c) \<in> set (map (\<lambda>sf. Name sf # folder_names sf) (GetFolders f))"
    by auto
  with assms(1) have "distinct (Name c # folder_names c)"
    unfolding folder_names_unfold [of f] by (rule distinct_concat_member)
  then show ?thesis by simp
qed

lemma sibling_names_distinct:
  assumes "distinct (folder_names f)"
  shows "distinct (map Name (GetFolders f))"
proof -
  have "distinct (concat (map (\<lambda>sf. Name sf # folder_names sf) cs))
          \<Longrightarrow> distinct (map Name cs)" for cs :: "'a folder list"
    by (induction cs) auto
  with assms show ?thesis by (simp add: folder_names_unfold [of f])
qed

lemma find_by_name:
  assumes "distinct (map Name cs)" and "c \<in> set cs"
  shows "find (\<lambda>sf. Name sf = Name c) cs = Some c"
  using assms by (induction cs) auto

lemma GetFolder_names_distinct:
  assumes "distinct (folder_names root)" and "GetFolder root p = Some f"
  shows "distinct (folder_names f)"
  using assms
proof (induction p arbitrary: root)
  case Nil
  then show ?case by simp
next
  case (Cons n ns)
  from Cons.prems(2) obtain sf where
    "find (\<lambda>sf. Name sf = n) (GetFolders root) = Some sf" and "GetFolder sf ns = Some f"
    by (auto split: option.splits)
  moreover from this have "sf \<in> set (GetFolders root)"
    by (simp add: find_in_set)
  ultimately show ?case
    using Cons.IH child_names_distinct [OF Cons.prems(1)] by blast
qed

lemma GetFolder_task_names_unique:
  assumes "task_names_unique root" and "GetFolder root p = Some f"
  shows "task_names_unique f"
  using assms
proof (induction p arbitrary: root)
  case Nil
  then show ?case by simp
next
  case (Cons n ns)
  from Cons.prems(2) obtain sf where
    "find (\<lambda>sf. Name sf = n) (GetFolders root) = Some sf" and "GetFolder sf ns = Some f"
    by (auto split: option.splits)
  moreover from this have "sf \<in> set (GetFolders root)"
    by (simp add: find_in_set)
  moreover from Cons.prems(1) have "list_all task_names_unique (GetFolders root)"
    by (simp add: task_names_unique_unfold [of root])
  ultimately show ?case
    using Cons.IH by (auto simp: list_all_iff)
qed

lemma GetFolder_last_name:
  assumes "GetFolder f q = Some c" and "q \<noteq> []"
  shows "Name c = last q \<and> last q \<in> set (folder_names f)"
  using assms
proof (induction q arbitrary: f)
  case Nil
  then show ?case by simp
next
  case (Cons n ns)
  from Cons.prems(1) obtain sf where
    found: "find (\<lambda>sf. Name sf = n) (GetFolders f) = Some sf" and below: "GetFolder sf ns = Some c"
    by (auto split: option.splits)
  from find_in_set [OF found] have sf: "sf \<in> set (GetFolders f)" "Name sf = n"
    by simp_all
  show ?case
  proof (cases "ns = []")
    case True
    with below sf child_names_subset(1) [OF sf(1)] show ?thesis by simp
  next
    case False
    with Cons.IH [OF below] child_names_subset(2) [OF sf(1)] show ?thesis by auto
  qed
qed

lemma find_folder_absent:
  fixes f :: "'t folder" and cs :: "'t folder list"
  shows "n \<notin> set (folder_names f) \<Longrightarrow> find_folder f pre n = None"
    and "n \<notin> set (concat (map (\<lambda>sf. Name sf # folder_names sf) cs))
           \<Longrightarrow> find_in_folders cs pre' n = None"
  by (induction f pre n and cs pre' n rule: find_folder_find_in_folders.induct) auto

lemma name_within_child:
  assumes "GetFolder c' q' = Some c" and "last (m # q') = n" and "Name c' = m"
  shows "n = Name c' \<or> n \<in> set (folder_names c')"
proof (cases "q' = []")
  case True
  with assms show ?thesis by simp
next
  case False
  with GetFolder_last_name [OF assms(1) False] assms(2) show ?thesis by simp
qed

lemma find_folder_unique:
  fixes f :: "'t folder" and cs :: "'t folder list"
  shows "distinct (folder_names f) \<Longrightarrow> GetFolder f q = Some c \<Longrightarrow> q \<noteq> [] \<Longrightarrow> last q = n
           \<Longrightarrow> find_folder f pre n = Some (pre @ q)"
    and "distinct (concat (map (\<lambda>sf. Name sf # folder_names sf) cs))
           \<Longrightarrow> find (\<lambda>sf. Name sf = m) cs = Some c' \<Longrightarrow> GetFolder c' q' = Some d
           \<Longrightarrow> last (m # q') = n
           \<Longrightarrow> find_in_folders cs pre' n = Some (pre' @ m # q')"
proof (induction f pre n and cs pre' n arbitrary: q c and m c' q' d
    rule: find_folder_find_in_folders.induct)
  case (1 nm ts folders folder_path folder_name)
  from "1.prems"(3) obtain m q' where q: "q = m # q'" by (cases q) auto
  with "1.prems"(2) obtain c' where
    "find (\<lambda>sf. Name sf = m) folders = Some c'" and "GetFolder c' q' = Some c"
    by (auto split: option.splits)
  with "1.IH" [of m c' q' c] "1.prems"(1,4) q show ?case by simp
next
  case (2 parent_path folder_name)
  then show ?case by simp
next
  case (3 subfolder rest parent_path folder_name)
  let ?names = "\<lambda>xs. concat (map (\<lambda>sf. Name sf # folder_names sf) xs)"
  from "3.prems"(1) have dist_sf: "distinct (Name subfolder # folder_names subfolder)"
    and dist_rest: "distinct (?names rest)"
    and apart: "set (Name subfolder # folder_names subfolder) \<inter> set (?names rest) = {}"
    by simp_all
  from find_in_set [OF "3.prems"(2)] have c': "c' \<in> set (subfolder # rest)" "Name c' = m"
    by simp_all
  have n_in: "folder_name = Name c' \<or> folder_name \<in> set (folder_names c')"
    by (rule name_within_child [OF "3.prems"(3,4) c'(2)])
  have in_rest: "folder_name \<in> set (?names rest)" if "c' \<in> set rest"
    using that n_in by auto
  show ?case
  proof (cases "Name subfolder = folder_name")
    case True
    have "m = Name subfolder"
    proof (rule ccontr)
      assume "m \<noteq> Name subfolder"
      with c' have "c' \<in> set rest" by auto
      from in_rest [OF this] True apart show False by auto
    qed
    with "3.prems"(2) have same: "c' = subfolder" by simp
    have "q' = []"
    proof (rule ccontr)
      assume "q' \<noteq> []"
      from GetFolder_last_name [OF "3.prems"(3) this] "3.prems"(4) \<open>q' \<noteq> []\<close>
      have "folder_name \<in> set (folder_names c')" by simp
      with same True dist_sf show False by simp
    qed
    with True \<open>m = Name subfolder\<close> show ?thesis by simp
  next
    case False
    show ?thesis
    proof (cases "m = Name subfolder")
      case True
      with "3.prems"(2) have same: "c' = subfolder" by simp
      have nonempty: "q' \<noteq> []"
        using "3.prems"(4) True False by auto
      with "3.prems"(4) have "last q' = folder_name" by simp
      from "3.IH"(1) [OF False _ _ nonempty this, of d] dist_sf "3.prems"(3) same
      have "find_folder subfolder (parent_path @ [Name subfolder]) folder_name =
              Some ((parent_path @ [Name subfolder]) @ q')"
        by simp
      with False True show ?thesis by simp
    next
      case other: False
      with "3.prems"(2) have found_rest: "find (\<lambda>sf. Name sf = m) rest = Some c'"
        by (simp split: if_splits)
      then have "c' \<in> set rest" by (simp add: find_in_set)
      from in_rest [OF this] apart have "folder_name \<notin> set (folder_names subfolder)"
        by auto
      then have none: "find_folder subfolder (parent_path @ [Name subfolder]) folder_name = None"
        by (rule find_folder_absent(1))
      from "3.IH"(2) [OF False none dist_rest found_rest "3.prems"(3,4)] False none
      show ?thesis by simp
    qed
  qed
qed

lemma get_folder_child:
  assumes dist: "distinct (folder_names root)"
    and at: "GetFolder root p = Some f"
    and child: "c \<in> set (GetFolders f)"
  shows "get_folder root (Some (Name c)) = Inr (TaskFolder c (p @ [Name c]))"
proof -
  have "distinct (map Name (GetFolders f))"
    by (rule sibling_names_distinct [OF GetFolder_names_distinct [OF dist at]])
  then have "find (\<lambda>sf. Name sf = Name c) (GetFolders f) = Some c"
    using child by (rule find_by_name)
  with at have resolved: "GetFolder root (p @ [Name c]) = Some c"
    by (simp add: GetFolder_append)
  from find_folder_unique(1) [OF dist resolved, of "Name c" "[]"]
  have "find_folder root [] (Name c) = Some (p @ [Name c])" by simp
  with resolved show ?thesis by (simp add: get_folder_def)
qed

lemma append_tasks_info_all:
  assumes at: "GetFolder root p = Some f"
    and uniq: "distinct (map fst (GetTasks f))"
    and part: "set ts \<subseteq> set (GetTasks f)"
  shows "append_tasks_info root (TaskFolder f p) (map fst ts) acc =
           Inr (acc @ map (\<lambda>t. info (snd t)) ts)"
  using part
proof (induction ts arbitrary: acc)
  case Nil
  show ?case by simp
next
  case (Cons t ts)
  obtain k v where t: "t = (k, v)" by (cases t)
  with Cons.prems have mem: "(k, v) \<in> set (GetTasks f)" by simp
  with uniq have "map_of (GetTasks f) k = Some v" by simp
  with at mem have "get_task root (TaskFolder f p) k = Inr v"
    by (force simp: get_task_def GetTask_def TaskFolder_def)
  with Cons t show ?case by simp
qed

lemma height_child:
  assumes "c \<in> set (GetFolders f)"
  shows "height c < height f"
proof -
  have "c \<in> set cs \<Longrightarrow> height c \<le> foldr (\<lambda>sf m. max (height sf) m) cs 0"
    for cs :: "'a folder list"
    by (induction cs) auto
  from this [OF assms] show ?thesis by (simp add: height_unfold [of f])
qed

lemma walk_subfolders_all:
  assumes dist: "distinct (folder_names root)"
    and at: "GetFolder root p = Some f"
    and part: "set cs \<subseteq> set (GetFolders f)"
    and step: "\<And>c fn acc. c \<in> set cs \<Longrightarrow>
                 list_tasks_info_in_folder depth root (TaskFolder c (p @ [Name c])) fn acc =
                   Inr (acc @ map info (tasks_depth_first c))"
  shows "walk_subfolders depth root fn (map Name cs) acc =
           Inr (acc @ concat (map (\<lambda>c. map info (tasks_depth_first c)) cs))"
  using part step
proof (induction cs arbitrary: acc)
  case Nil
  show ?case by simp
next
  case (Cons c cs)
  from Cons.prems(1) have "c \<in> set (GetFolders f)" by simp
  from get_folder_child [OF dist at this]
  have "get_folder root (Some (Name c)) = Inr (TaskFolder c (p @ [Name c]))" .
  moreover have "list_tasks_info_in_folder depth root (TaskFolder c (p @ [Name c]))
      (fn @ [CHR 0x5C] @ Name c) acc = Inr (acc @ map info (tasks_depth_first c))"
    by (rule Cons.prems(2)) simp
  moreover have "walk_subfolders depth root fn (map Name cs)
      (acc @ map info (tasks_depth_first c)) =
      Inr ((acc @ map info (tasks_depth_first c))
           @ concat (map (\<lambda>c. map info (tasks_depth_first c)) cs))"
    using Cons.prems by (intro Cons.IH) auto
  ultimately show ?case by simp
qed

lemma list_tasks_info_depth_first:
  assumes dist: "distinct (folder_names root)"
    and uniq: "task_names_unique root"
  shows "GetFolder root p = Some f \<Longrightarrow> height f \<le> depth \<Longrightarrow>
           list_tasks_info_in_folder depth root (TaskFolder f p) fn acc =
             Inr (acc @ map info (tasks_depth_first f))"
proof (induction depth arbitrary: p f fn acc)
  case 0
  then show ?case by (simp add: height_unfold [of f])
next
  case (Suc depth)
  have "distinct (map fst (GetTasks f))"
    using GetFolder_task_names_unique [OF uniq Suc.prems(1)]
    by (simp add: task_names_unique_unfold [of f])
  from append_tasks_info_all [OF Suc.prems(1) this subset_refl, of acc]
  have tasks_done: "append_tasks_info root (TaskFolder f p) (tasks (TaskFolder f p)) acc =
      Inr (acc @ map (\<lambda>t. info (snd t)) (GetTasks f))"
    by (simp add: TaskFolder_def)
  have below: "list_tasks_info_in_folder depth root (TaskFolder c (p @ [Name c])) fn' acc' =
      Inr (acc' @ map info (tasks_depth_first c))"
    if "c \<in> set (GetFolders f)" for c fn' acc'
  proof (rule Suc.IH)
    have "distinct (map Name (GetFolders f))"
      by (rule sibling_names_distinct [OF GetFolder_names_distinct [OF dist Suc.prems(1)]])
    then have "find (\<lambda>sf. Name sf = Name c) (GetFolders f) = Some c"
      using that by (rule find_by_name)
    with Suc.prems(1) show "GetFolder root (p @ [Name c]) = Some c"
      by (simp add: GetFolder_append)
    from height_child [OF that] Suc.prems(2) show "height c \<le> depth" by simp
  qed
  from walk_subfolders_all [OF dist Suc.prems(1) subset_refl below, of fn]
  have "walk_subfolders depth root fn (subfolders (TaskFolder f p))
      (acc @ map (\<lambda>t. info (snd t)) (GetTasks f)) =
      Inr ((acc @ map (\<lambda>t. info (snd t)) (GetTasks f))
           @ concat (map (\<lambda>c. map info (tasks_depth_first c)) (GetFolders f)))"
    by (simp add: TaskFolder_def)
  with tasks_done show ?case
    by (simp add: tasks_depth_first_unfold [of f] map_concat comp_def)
qed

lemma get_all_tasks_depth_first:
  assumes "distinct (folder_names root)" and "task_names_unique root"
    and "height root \<le> depth" and "tasks_depth_first root \<noteq> []"
  shows "get_all_tasks depth root S R = Inr (preprocess S R (map info (tasks_depth_first root)))"
  using list_tasks_info_depth_first [OF assms(1,2), of "[]" root depth "[CHR 0x5C]" "[]"]
    assms(3,4)
  by (simp add: get_all_tasks_def get_folder_def)

lemma get_all_tasks_plain_tree:
  "distinct (folder_names plain_tree) \<and> task_names_unique plain_tree \<and> height plain_tree \<le> 3
   \<and> (\<exists>rows. get_all_tasks 3 plain_tree S R = Inr rows
        \<and> map name rows = [''top'', ''a'', ''b'', ''c''])"
proof -
  have d: "distinct (folder_names plain_tree)" and u: "task_names_unique plain_tree"
    and h: "height plain_tree \<le> 3" and n: "tasks_depth_first plain_tree \<noteq> []"
    by (simp_all add: plain_tree_def)
  have "map name (preprocess S R (map info (tasks_depth_first plain_tree))) =
      [''top'', ''a'', ''b'', ''c'']"
    by (simp add: preprocess_keeps_columns plain_tree_def info_def sample_rtask_def Let_def)
  with get_all_tasks_depth_first [OF d u h n, of S R] d u h show ?thesis
    by (intro conjI exI) assumption+
qed

end
